theory Spec2Isabelle
  imports Main
begin

section \<open>Data model\<close>

text \<open>
  The orchestrator \<^verbatim>\<open>FlashcardDB\<close> of \<^verbatim>\<open>src/main.py\<close> keeps a MongoDB collection and five
  in-memory structures that all hold references to the same node objects. Node objects
  live in an explicit heap (a list of records; a reference is an index, a new object is
  appended), so that a field written through one structure is seen through all others.
\<close>

type_synonym oid = nat
  \<comment> \<open>a \<^verbatim>\<open>bson.ObjectId\<close>\<close>

type_synonym ref = nat
  \<comment> \<open>a reference to a node object: its position in the heap\<close>

text \<open>
  A stored document without its \<^verbatim>\<open>_id\<close>: the three fields the program reads, each
  present or absent.
\<close>

record document =
  doc_question :: "string option"
  doc_answer :: "string option"
  doc_category :: "string option"

text \<open>
  The dictionary \<^verbatim>\<open>update_fields\<close> handed to \<^verbatim>\<open>$set\<close>: question and answer are always
  present, the key \<^verbatim>\<open>category\<close> only sometimes.
\<close>

record update_fields =
  set_question :: string
  set_answer :: string
  set_category :: "string option"

text \<open>
  A node (card) object. \<^verbatim>\<open>card_id\<close> and \<^verbatim>\<open>category\<close> are assigned by the caller after
  the list has created the node; \<open>None\<close> is the value before that assignment.
\<close>

record card =
  card_id :: "oid option"
  question :: string
  answer :: string
  category :: "string option"

text \<open>
  The effects of a call, in program order: each call on the collection and each
  mutation of an in-memory structure is recorded as one event.
\<close>

datatype store_call = Create | Update | Delete

datatype view = OrderedList | CardRecord | CardIndex | CategoryIndex | PracticeQueue | ReviewStack

datatype event = Store store_call | Memory view

record flashcard_db =
  collection :: "(oid \<times> document) list"
  last_oid :: oid
  heap :: "card list"
  linked_list :: "ref list"
  practice_queue :: "ref list"
  review_history :: "ref list"
  category_manager :: "string option \<rightharpoonup> ref list"
  node_index :: "oid \<rightharpoonup> ref"
  trace :: "event list"

definition emit :: "event \<Rightarrow> flashcard_db \<Rightarrow> flashcard_db" where
  "emit e s = s\<lparr>trace := trace s @ [e]\<rparr>"

text \<open>Python truthiness of an \<^verbatim>\<open>Optional[str]\<close>: \<^verbatim>\<open>None\<close> and the empty string are falsy.\<close>

definition truthy :: "string option \<Rightarrow> bool" where
  "truthy v = (case v of None \<Rightarrow> False | Some t \<Rightarrow> t \<noteq> [])"

section \<open>The persistent store\<close>

text \<open>
  The collection is a sequence of documents with their ids. \<^verbatim>\<open>update_one\<close> and
  \<^verbatim>\<open>delete_one\<close> act on the first document whose \<^verbatim>\<open>_id\<close> matches the filter and report
  \<^verbatim>\<open>modified_count\<close> and \<^verbatim>\<open>deleted_count\<close>. As in MongoDB, a matched document that
  \<^verbatim>\<open>$set\<close> leaves as it was counts as not modified.

  \<^verbatim>\<open>insert_one\<close> assigns a newly generated \<^verbatim>\<open>ObjectId\<close>. An \<^verbatim>\<open>ObjectId\<close> starts with its
  creation time, so ids are modelled as increasing: \<open>last_oid\<close> is the largest id that was
  in the collection at start-up or has been generated since, and a new id is larger than
  it and than every id now stored. The id of a deleted document is never assigned again.
\<close>

definition fresh_oid :: "flashcard_db \<Rightarrow> oid" where
  "fresh_oid s = Suc (max (last_oid s) (foldr max (map fst (collection s)) 0))"

definition insert_one :: "flashcard_db \<Rightarrow> document \<Rightarrow> oid \<times> flashcard_db" where
  "insert_one s doc =
     (let inserted_id = fresh_oid s
      in (inserted_id,
          emit (Store Create)
            (s\<lparr>collection := collection s @ [(inserted_id, doc)], last_oid := inserted_id\<rparr>)))"

definition apply_set :: "update_fields \<Rightarrow> document \<Rightarrow> document" where
  "apply_set u d =
     d\<lparr>doc_question := Some (set_question u),
       doc_answer := Some (set_answer u),
       doc_category := (case set_category u of None \<Rightarrow> doc_category d | Some c \<Rightarrow> Some c)\<rparr>"

fun update_first :: "oid \<Rightarrow> update_fields \<Rightarrow> (oid \<times> document) list \<Rightarrow> nat \<times> (oid \<times> document) list" where
  "update_first i u [] = (0, [])"
| "update_first i u ((j, d) # ds) =
     (if j = i then ((if apply_set u d = d then 0 else 1), (j, apply_set u d) # ds)
      else (fst (update_first i u ds), (j, d) # snd (update_first i u ds)))"

definition update_one :: "flashcard_db \<Rightarrow> oid \<Rightarrow> update_fields \<Rightarrow> nat \<times> flashcard_db" where
  "update_one s i u =
     (fst (update_first i u (collection s)),
      emit (Store Update) (s\<lparr>collection := snd (update_first i u (collection s))\<rparr>))"

fun delete_first :: "oid \<Rightarrow> (oid \<times> document) list \<Rightarrow> nat \<times> (oid \<times> document) list" where
  "delete_first i [] = (0, [])"
| "delete_first i ((j, d) # ds) =
     (if j = i then (1, ds)
      else (fst (delete_first i ds), (j, d) # snd (delete_first i ds)))"

definition delete_one :: "flashcard_db \<Rightarrow> oid \<Rightarrow> nat \<times> flashcard_db" where
  "delete_one s i =
     (fst (delete_first i (collection s)),
      emit (Store Delete) (s\<lparr>collection := snd (delete_first i (collection s))\<rparr>))"

definition find_all :: "flashcard_db \<Rightarrow> (oid \<times> document) list" where
  "find_all s = collection s"

section \<open>The in-memory structures\<close>

text \<open>
  An attribute assignment on the node object behind a reference: the object is replaced in
  the heap, and every structure holding the reference sees the new value.
\<close>

definition modify :: "ref \<Rightarrow> (card \<Rightarrow> card) \<Rightarrow> card list \<Rightarrow> card list" where
  "modify node f h = h[node := f (h ! node)]"

subsection \<open>Ordered card list\<close>

text \<open>
  Modelled from the spec: the class \<^verbatim>\<open>LinkedList\<close> (module \<^verbatim>\<open>linkedlist\<close>) is imported by
  \<^verbatim>\<open>src/main.py\<close> and is not among the sources. Section 4.1 of the specification:
  append adds to the tail; update mutates the entry with the given id in place and fails
  if it is absent; remove deletes the entry and fails if it is absent. \<^verbatim>\<open>add_card\<close>
  creates the node from question and answer and returns it, as the caller's use shows.
\<close>

definition ll_add_card :: "flashcard_db \<Rightarrow> string \<Rightarrow> string \<Rightarrow> ref \<times> flashcard_db" where
  "ll_add_card s q a =
     (let node = length (heap s)
      in (node, emit (Memory OrderedList)
            (s\<lparr>heap := heap s @ [\<lparr>card_id = None, question = q, answer = a, category = None\<rparr>],
               linked_list := linked_list s @ [node]\<rparr>)))"

definition ll_find :: "flashcard_db \<Rightarrow> oid \<Rightarrow> ref option" where
  "ll_find s i = List.find (\<lambda>r. card_id (heap s ! r) = Some i) (linked_list s)"

definition ll_edit_card :: "flashcard_db \<Rightarrow> oid \<Rightarrow> string \<Rightarrow> string \<Rightarrow> bool \<times> flashcard_db" where
  "ll_edit_card s i q a =
     (case ll_find s i of
        None \<Rightarrow> (False, s)
      | Some node \<Rightarrow>
          (True, emit (Memory OrderedList)
             (s\<lparr>heap := modify node (\<lambda>c. c\<lparr>question := q, answer := a\<rparr>) (heap s)\<rparr>)))"

definition ll_delete_card :: "flashcard_db \<Rightarrow> oid \<Rightarrow> bool \<times> flashcard_db" where
  "ll_delete_card s i =
     (case ll_find s i of
        None \<Rightarrow> (False, s)
      | Some node \<Rightarrow>
          (True, emit (Memory OrderedList) (s\<lparr>linked_list := remove1 node (linked_list s)\<rparr>)))"

subsection \<open>Attribute writes on a node\<close>

definition set_card_id :: "flashcard_db \<Rightarrow> ref \<Rightarrow> oid \<Rightarrow> flashcard_db" where
  "set_card_id s node v =
     emit (Memory CardRecord) (s\<lparr>heap := modify node (\<lambda>c. c\<lparr>card_id := Some v\<rparr>) (heap s)\<rparr>)"

definition set_category_of :: "flashcard_db \<Rightarrow> ref \<Rightarrow> string option \<Rightarrow> flashcard_db" where
  "set_category_of s node v =
     emit (Memory CardRecord) (s\<lparr>heap := modify node (\<lambda>c. c\<lparr>category := v\<rparr>) (heap s)\<rparr>)"

definition set_question_of :: "flashcard_db \<Rightarrow> ref \<Rightarrow> string \<Rightarrow> flashcard_db" where
  "set_question_of s node v =
     emit (Memory CardRecord) (s\<lparr>heap := modify node (\<lambda>c. c\<lparr>question := v\<rparr>) (heap s)\<rparr>)"

definition set_answer_of :: "flashcard_db \<Rightarrow> ref \<Rightarrow> string \<Rightarrow> flashcard_db" where
  "set_answer_of s node v =
     emit (Memory CardRecord) (s\<lparr>heap := modify node (\<lambda>c. c\<lparr>answer := v\<rparr>) (heap s)\<rparr>)"

subsection \<open>Card index and practice queue\<close>

definition index_put :: "flashcard_db \<Rightarrow> oid \<Rightarrow> ref \<Rightarrow> flashcard_db" where
  "index_put s i node = emit (Memory CardIndex) (s\<lparr>node_index := (node_index s)(i \<mapsto> node)\<rparr>)"

text \<open>\<^verbatim>\<open>dict.pop(oid, None)\<close>: the entry is removed when there is one.\<close>

definition index_pop :: "flashcard_db \<Rightarrow> oid \<Rightarrow> ref option \<times> flashcard_db" where
  "index_pop s i =
     (case node_index s i of
        None \<Rightarrow> (None, s)
      | Some node \<Rightarrow> (Some node, emit (Memory CardIndex) (s\<lparr>node_index := (node_index s)(i := None)\<rparr>)))"

definition queue_append :: "flashcard_db \<Rightarrow> ref \<Rightarrow> flashcard_db" where
  "queue_append s node = emit (Memory PracticeQueue) (s\<lparr>practice_queue := practice_queue s @ [node]\<rparr>)"

text \<open>\<^verbatim>\<open>deque.remove(value)\<close> removes the first occurrence of the value.\<close>

definition queue_remove :: "flashcard_db \<Rightarrow> ref \<Rightarrow> flashcard_db" where
  "queue_remove s node = emit (Memory PracticeQueue) (s\<lparr>practice_queue := remove1 node (practice_queue s)\<rparr>)"

subsection \<open>Review stack\<close>

text \<open>
  Modelled from the spec: the class \<^verbatim>\<open>ReviewHistory\<close> (module \<^verbatim>\<open>review_history\<close>) is
  imported by \<^verbatim>\<open>src/main.py\<close> and is not among the sources. Section 4.5 of the
  specification: a LIFO; push records the card at the top, pop removes and returns the
  most recently pushed card, or nothing when the stack is empty. Its attribute
  \<^verbatim>\<open>stack\<close> is used by the caller as a Python list; the top is the last element.
\<close>

definition rh_push :: "flashcard_db \<Rightarrow> ref \<Rightarrow> flashcard_db" where
  "rh_push s node = emit (Memory ReviewStack) (s\<lparr>review_history := review_history s @ [node]\<rparr>)"

definition rh_pop :: "flashcard_db \<Rightarrow> ref option \<times> flashcard_db" where
  "rh_pop s =
     (if review_history s = [] then (None, s)
      else (Some (last (review_history s)),
            emit (Memory ReviewStack) (s\<lparr>review_history := butlast (review_history s)\<rparr>)))"

definition rh_size :: "flashcard_db \<Rightarrow> nat" where
  "rh_size s = length (review_history s)"

text \<open>\<^verbatim>\<open>list.remove(value)\<close> on the stack's list removes the first occurrence of the value.\<close>

definition stack_remove :: "flashcard_db \<Rightarrow> ref \<Rightarrow> flashcard_db" where
  "stack_remove s node = emit (Memory ReviewStack) (s\<lparr>review_history := remove1 node (review_history s)\<rparr>)"

subsection \<open>Category index\<close>

text \<open>
  Modelled from the spec: the class \<^verbatim>\<open>CategoryManager\<close> (module \<^verbatim>\<open>category_manager\<close>) is
  imported by \<^verbatim>\<open>src/main.py\<close> and is not among the sources. Section 4.3 of the
  specification: adding inserts into the named bucket and creates the bucket if absent;
  removing deletes the entry and prunes a bucket that becomes empty; moving is removing
  followed by adding; the members of an unknown category are the empty sequence.
  Members are kept in insertion order (section 8).
\<close>

definition add_to_category :: "flashcard_db \<Rightarrow> string option \<Rightarrow> ref \<Rightarrow> flashcard_db" where
  "add_to_category s c node =
     emit (Memory CategoryIndex)
       (s\<lparr>category_manager := (category_manager s)
            (c \<mapsto> (case category_manager s c of None \<Rightarrow> [node] | Some b \<Rightarrow> b @ [node]))\<rparr>)"

definition remove_from_category :: "flashcard_db \<Rightarrow> string option \<Rightarrow> ref \<Rightarrow> flashcard_db" where
  "remove_from_category s c node =
     (case category_manager s c of
        None \<Rightarrow> s
      | Some b \<Rightarrow>
          emit (Memory CategoryIndex)
            (s\<lparr>category_manager :=
                 (if remove1 node b = [] then (category_manager s)(c := None)
                  else (category_manager s)(c \<mapsto> remove1 node b))\<rparr>))"

definition update_category :: "flashcard_db \<Rightarrow> string option \<Rightarrow> string option \<Rightarrow> ref \<Rightarrow> flashcard_db" where
  "update_category s old_cat new_cat node =
     add_to_category (remove_from_category s old_cat node) new_cat node"

definition cm_get_by_category :: "flashcard_db \<Rightarrow> string option \<Rightarrow> ref list" where
  "cm_get_by_category s c = (case category_manager s c of None \<Rightarrow> [] | Some b \<Rightarrow> b)"

section \<open>The orchestrator\<close>

datatype error = KeyError | InvalidId

text \<open>
  The \<^verbatim>\<open>card_id\<close> argument of a public method: an \<^verbatim>\<open>ObjectId\<close>, or a string.
  \<^verbatim>\<open>_ensure_oid\<close> returns an \<^verbatim>\<open>ObjectId\<close> as it is and converts a string with
  \<^verbatim>\<open>ObjectId(card_id)\<close>. That constructor (package \<^verbatim>\<open>bson\<close>) raises \<^verbatim>\<open>InvalidId\<close> unless
  the string has 24 characters and \<^verbatim>\<open>bytes.fromhex\<close> reads it: pairs of hexadecimal
  digits, with ASCII white space allowed between pairs. The id is the byte string read,
  12 bytes for 24 digits. An id of type \<open>oid\<close> stands for such a byte string: a 12-byte
  string for its big-endian value, a shorter one for a value above all of those.
\<close>

datatype card_id_arg = ObjectId oid | Str string

definition hex_digit :: "char \<Rightarrow> nat option" where
  "hex_digit c =
     (let n = (of_char c :: nat)
      in if 48 \<le> n \<and> n \<le> 57 then Some (n - 48)
         else if 97 \<le> n \<and> n \<le> 102 then Some (n - 87)
         else if 65 \<le> n \<and> n \<le> 70 then Some (n - 55)
         else None)"

definition is_space :: "char \<Rightarrow> bool" where
  "is_space c = (let n = (of_char c :: nat) in (9 \<le> n \<and> n \<le> 13) \<or> n = 32)"

fun fromhex :: "string \<Rightarrow> nat list option" where
  "fromhex [] = Some []"
| "fromhex [c] = (if is_space c then Some [] else None)"
| "fromhex (c # d # cs) =
     (if is_space c then fromhex (d # cs)
      else (case hex_digit c of
              None \<Rightarrow> None
            | Some h \<Rightarrow>
               (case hex_digit d of
                  None \<Rightarrow> None
                | Some l \<Rightarrow>
                   (case fromhex cs of
                      None \<Rightarrow> None
                    | Some bs \<Rightarrow> Some ((16 * h + l) # bs)))))"

definition id_of_bytes :: "nat list \<Rightarrow> oid" where
  "id_of_bytes bs = 256 ^ 12 * (12 - length bs) + foldl (\<lambda>acc b. 256 * acc + b) 0 bs"

definition object_id_of_string :: "string \<Rightarrow> oid option" where
  "object_id_of_string t =
     (if length t = 24 then map_option id_of_bytes (fromhex t) else None)"

definition ensure_oid :: "card_id_arg \<Rightarrow> error + oid" where
  "ensure_oid card_id_arg =
     (case card_id_arg of
        ObjectId i \<Rightarrow> Inr i
      | Str t \<Rightarrow>
          (case object_id_of_string t of
             None \<Rightarrow> Inl InvalidId
           | Some i \<Rightarrow> Inr i))"

text \<open>
  The body of the loop of \<^verbatim>\<open>_load_cards_into_memory\<close>. Subscripting a document with a
  key it lacks raises \<^verbatim>\<open>KeyError\<close>; \<^verbatim>\<open>get\<close> with a default does not.
\<close>

definition load_card :: "flashcard_db \<Rightarrow> oid \<times> document \<Rightarrow> error + flashcard_db" where
  "load_card s card_data =
     (case doc_question (snd card_data) of
        None \<Rightarrow> Inl KeyError
      | Some q \<Rightarrow>
         (case doc_answer (snd card_data) of
            None \<Rightarrow> Inl KeyError
          | Some a \<Rightarrow>
             (let (node, s1) = ll_add_card s q a;
                  s2 = set_card_id s1 node (fst card_data);
                  cat = (case doc_category (snd card_data) of
                           None \<Rightarrow> ''Uncategorized'' | Some c \<Rightarrow> c);
                  s3 = set_category_of s2 node (Some cat);
                  s4 = index_put s3 (fst card_data) node;
                  s5 = queue_append s4 node
              in Inr (add_to_category s5 (Some cat) node))))"

fun load_cards :: "flashcard_db \<Rightarrow> (oid \<times> document) list \<Rightarrow> error + flashcard_db" where
  "load_cards s [] = Inr s"
| "load_cards s (card_data # rest) =
     (case load_card s card_data of
        Inl e \<Rightarrow> Inl e
      | Inr s' \<Rightarrow> load_cards s' rest)"

definition load_cards_into_memory :: "flashcard_db \<Rightarrow> error + flashcard_db" where
  "load_cards_into_memory s = load_cards s (find_all s)"

text \<open>The constructor: empty structures over the given collection, then the load.\<close>

definition empty_db :: "(oid \<times> document) list \<Rightarrow> flashcard_db" where
  "empty_db coll =
     \<lparr>collection = coll, last_oid = foldr max (map fst coll) 0,
      heap = [], linked_list = [], practice_queue = [],
      review_history = [], category_manager = Map.empty, node_index = Map.empty,
      trace = []\<rparr>"

definition init_db :: "(oid \<times> document) list \<Rightarrow> error + flashcard_db" where
  "init_db coll = load_cards_into_memory (empty_db coll)"

text \<open>
  \<^verbatim>\<open>add_card\<close>, in two parts: the statements after \<^verbatim>\<open>insert_one\<close> (creating the node and
  entering it into the structures), and the whole method.
\<close>

definition add_card_in_memory ::
  "flashcard_db \<Rightarrow> oid \<Rightarrow> string \<Rightarrow> string \<Rightarrow> string \<Rightarrow> ref \<times> flashcard_db" where
  "add_card_in_memory s inserted_id q a cat =
     (let (node, s1) = ll_add_card s q a;
          s2 = set_card_id s1 node inserted_id;
          s3 = set_category_of s2 node (Some cat);
          s4 = index_put s3 inserted_id node;
          s5 = queue_append s4 node
      in (node, add_to_category s5 (Some cat) node))"

definition add_card :: "flashcard_db \<Rightarrow> string \<Rightarrow> string \<Rightarrow> string \<Rightarrow> ref \<times> flashcard_db" where
  "add_card s q a cat =
     (let doc = \<lparr>doc_question = Some q, doc_answer = Some a, doc_category = Some cat\<rparr>;
          (inserted_id, s1) = insert_one s doc
      in add_card_in_memory s1 inserted_id q a cat)"

text \<open>
  \<^verbatim>\<open>edit_card\<close>, \<^verbatim>\<open>delete_card\<close> and \<^verbatim>\<open>mark_reviewed\<close> begin with
  \<^verbatim>\<open>oid = self._ensure_oid(card_id)\<close>, which raises or yields the id that every later
  statement uses. Each method is given in two parts: the statements after that first line,
  as a function of the resolved id \<open>i\<close> (under the method's name), and further below the
  whole call on any argument (\<open>edit_card_call\<close>, \<open>delete_card_call\<close>,
  \<open>mark_reviewed_call\<close>).
\<close>

definition edit_card ::
  "flashcard_db \<Rightarrow> oid \<Rightarrow> string \<Rightarrow> string \<Rightarrow> string option \<Rightarrow> bool \<times> flashcard_db" where
  "edit_card s i new_q new_a new_cat =
     (let (ok_list, s1) = ll_edit_card s i new_q new_a;
          fields = \<lparr>set_question = new_q, set_answer = new_a,
                    set_category = (if truthy new_cat then new_cat else None)\<rparr>;
          (modified_count, s2) = update_one s1 i fields;
          ok_db = (modified_count > 0);
          s3 = (case node_index s2 i of
                  None \<Rightarrow> s2
                | Some node \<Rightarrow>
                    (let s4 = set_question_of s2 node new_q;
                         s5 = set_answer_of s4 node new_a
                     in if truthy new_cat
                        then (let old_cat = category (heap s5 ! node);
                                  s6 = set_category_of s5 node new_cat
                              in update_category s6 old_cat new_cat node)
                        else s5))
      in (ok_list \<and> ok_db, s3))"

definition delete_card :: "flashcard_db \<Rightarrow> oid \<Rightarrow> bool \<times> flashcard_db" where
  "delete_card s i =
     (let (ok_list, s1) = ll_delete_card s i;
          (deleted_count, s2) = delete_one s1 i;
          ok_db = (deleted_count > 0);
          (popped, s3) = index_pop s2 i;
          s4 = (case popped of
                  None \<Rightarrow> s3
                | Some node \<Rightarrow>
                    (let s5 = (if node \<in> set (practice_queue s3) then queue_remove s3 node else s3);
                         s6 = (if node \<in> set (review_history s5) then stack_remove s5 node else s5)
                     in remove_from_category s6 (category (heap s6 ! node)) node))
      in (ok_list \<and> ok_db, s4))"

definition next_card :: "flashcard_db \<Rightarrow> ref option \<times> flashcard_db" where
  "next_card s =
     (case practice_queue s of
        [] \<Rightarrow> (None, s)
      | node # rest \<Rightarrow> (Some node, emit (Memory PracticeQueue) (s\<lparr>practice_queue := rest\<rparr>)))"

definition mark_reviewed :: "flashcard_db \<Rightarrow> oid \<Rightarrow> bool \<Rightarrow> bool \<times> flashcard_db" where
  "mark_reviewed s i correct =
     (case node_index s i of
        None \<Rightarrow> (False, s)
      | Some node \<Rightarrow>
          (let s1 = rh_push s node;
               s2 = (if \<not> correct then queue_append s1 node else s1)
           in (True, s2)))"

text \<open>
  The three methods as called: \<^verbatim>\<open>_ensure_oid\<close> first, whose exception ends the call before
  anything is read or written, then the rest of the method on the resolved id.
\<close>

definition edit_card_call ::
  "flashcard_db \<Rightarrow> card_id_arg \<Rightarrow> string \<Rightarrow> string \<Rightarrow> string option
     \<Rightarrow> error + bool \<times> flashcard_db" where
  "edit_card_call s card_id_arg new_q new_a new_cat =
     (case ensure_oid card_id_arg of
        Inl e \<Rightarrow> Inl e
      | Inr i \<Rightarrow> Inr (edit_card s i new_q new_a new_cat))"

definition delete_card_call :: "flashcard_db \<Rightarrow> card_id_arg \<Rightarrow> error + bool \<times> flashcard_db" where
  "delete_card_call s card_id_arg =
     (case ensure_oid card_id_arg of
        Inl e \<Rightarrow> Inl e
      | Inr i \<Rightarrow> Inr (delete_card s i))"

definition mark_reviewed_call ::
  "flashcard_db \<Rightarrow> card_id_arg \<Rightarrow> bool \<Rightarrow> error + bool \<times> flashcard_db" where
  "mark_reviewed_call s card_id_arg correct =
     (case ensure_oid card_id_arg of
        Inl e \<Rightarrow> Inl e
      | Inr i \<Rightarrow> Inr (mark_reviewed s i correct))"

definition revisit_last :: "flashcard_db \<Rightarrow> ref option \<times> flashcard_db" where
  "revisit_last s = rh_pop s"

definition get_by_category :: "flashcard_db \<Rightarrow> string \<Rightarrow> ref list" where
  "get_by_category s cat = cm_get_by_category s (Some cat)"

definition queue_size :: "flashcard_db \<Rightarrow> nat" where
  "queue_size s = length (practice_queue s)"

definition review_stack_size :: "flashcard_db \<Rightarrow> nat" where
  "review_stack_size s = rh_size s"

section \<open>Repeated calls and example states\<close>

text \<open>\<open>n\<close> successive calls of \<^verbatim>\<open>next_card\<close>, with the results in call order.\<close>

fun next_cards :: "nat \<Rightarrow> flashcard_db \<Rightarrow> ref option list \<times> flashcard_db" where
  "next_cards 0 s = ([], s)"
| "next_cards (Suc n) s =
     (fst (next_card s) # fst (next_cards n (snd (next_card s))),
      snd (next_cards n (snd (next_card s))))"

text \<open>\<open>n\<close> successive calls of \<^verbatim>\<open>revisit_last\<close>, with the results in call order.\<close>

fun revisit_lasts :: "nat \<Rightarrow> flashcard_db \<Rightarrow> ref option list \<times> flashcard_db" where
  "revisit_lasts 0 s = ([], s)"
| "revisit_lasts (Suc n) s =
     (fst (revisit_last s) # fst (revisit_lasts n (snd (revisit_last s))),
      snd (revisit_lasts n (snd (revisit_last s))))"

text \<open>A sequence of \<^verbatim>\<open>mark_reviewed\<close> calls, given as (id, correct), with their results.\<close>

fun mark_reviewed_all :: "flashcard_db \<Rightarrow> (oid \<times> bool) list \<Rightarrow> bool list \<times> flashcard_db" where
  "mark_reviewed_all s [] = ([], s)"
| "mark_reviewed_all s ((i, correct) # calls) =
     (fst (mark_reviewed s i correct) # fst (mark_reviewed_all (snd (mark_reviewed s i correct)) calls),
      snd (mark_reviewed_all (snd (mark_reviewed s i correct)) calls))"

text \<open>The events of one call: what the call appended to the trace.\<close>

definition events_of :: "flashcard_db \<Rightarrow> flashcard_db \<Rightarrow> event list" where
  "events_of s s' = drop (length (trace s)) (trace s')"

fun is_memory :: "event \<Rightarrow> bool" where
  "is_memory (Memory v) = True"
| "is_memory (Store c) = False"

fun is_store :: "event \<Rightarrow> bool" where
  "is_store (Store c) = True"
| "is_store (Memory v) = False"

text \<open>The in-memory mutations performed before the first call on the store.\<close>

definition memory_before_store :: "event list \<Rightarrow> event list" where
  "memory_before_store tr = takeWhile is_memory tr"

text \<open>
  Every reference held by a structure points to an allocated node object, as every
  Python reference does.
\<close>

definition valid_refs :: "flashcard_db \<Rightarrow> bool" where
  "valid_refs s =
     (list_all (\<lambda>r. r < length (heap s)) (linked_list s)
      \<and> list_all (\<lambda>r. r < length (heap s)) (practice_queue s)
      \<and> list_all (\<lambda>r. r < length (heap s)) (review_history s)
      \<and> (\<forall>i r. node_index s i = Some r \<longrightarrow> r < length (heap s))
      \<and> (\<forall>c b. category_manager s c = Some b \<longrightarrow> list_all (\<lambda>r. r < length (heap s)) b))"

text \<open>
  One card added to an empty collection: document 1 in the store, node 0 in memory.
\<close>

definition one_card_db :: flashcard_db where
  "one_card_db = snd (add_card (empty_db []) ''Q'' ''A'' ''Math'')"

text \<open>
  The same in-memory state over a store that no longer holds the document (removed by
  another client of the database).
\<close>

definition stale_db :: flashcard_db where
  "stale_db = one_card_db\<lparr>collection := []\<rparr>"

text \<open>Three cards added to an empty collection: documents 1, 2, 3 and nodes 0, 1, 2.\<close>

definition three_cards_db :: flashcard_db where
  "three_cards_db =
     snd (add_card (snd (add_card (snd (add_card (empty_db []) ''Q1'' ''A1'' ''Math''))
                       ''Q2'' ''A2'' ''Math'')) ''Q3'' ''A3'' ''Science'')"

text \<open>
  The card of \<open>one_card_db\<close> reviewed twice as not correct: three queue entries and two
  stack entries for node 0.
\<close>

definition requeued_db :: flashcard_db where
  "requeued_db = snd (mark_reviewed (snd (mark_reviewed one_card_db 1 False)) 1 False)"

text \<open>
  A collection found at start-up: two documents, the first without a category field.
\<close>

definition stored_docs :: "(oid \<times> document) list" where
  "stored_docs =
     [(5, \<lparr>doc_question = Some ''Q5'', doc_answer = Some ''A5'', doc_category = None\<rparr>),
      (7, \<lparr>doc_question = Some ''Q7'', doc_answer = Some ''A7'', doc_category = Some ''Math''\<rparr>)]"

section \<open>Evaluating the operations\<close>

lemmas prim_defs = emit_def insert_one_def update_one_def delete_one_def find_all_def
  ll_add_card_def ll_edit_card_def ll_delete_card_def set_card_id_def set_category_of_def
  set_question_of_def set_answer_of_def index_put_def index_pop_def queue_append_def
  queue_remove_def rh_push_def rh_pop_def stack_remove_def add_to_category_def
  remove_from_category_def update_category_def

lemma one_card_db_eq:
  "one_card_db =
     \<lparr>collection = [(1, \<lparr>doc_question = Some ''Q'', doc_answer = Some ''A'', doc_category = Some ''Math''\<rparr>)],
      last_oid = 1,
      heap = [\<lparr>card_id = Some 1, question = ''Q'', answer = ''A'', category = Some ''Math''\<rparr>],
      linked_list = [0], practice_queue = [0], review_history = [],
      category_manager = [Some ''Math'' \<mapsto> [0]], node_index = [1 \<mapsto> 0],
      trace = [Store Create, Memory OrderedList, Memory CardRecord, Memory CardRecord,
               Memory CardIndex, Memory PracticeQueue, Memory CategoryIndex]\<rparr>"
  by (simp add: one_card_db_def add_card_def add_card_in_memory_def empty_db_def fresh_oid_def
      prim_defs modify_def Let_def)

section \<open>Deleting, then reviewing\<close>

lemma delete_card_index: "node_index (snd (delete_card s i)) i = None"
  by (simp add: delete_card_def prim_defs Let_def split: option.splits prod.splits)

text \<open>
  C4. After \<^verbatim>\<open>delete_card\<close> the id is no longer in the card index, whatever the state
  was; \<^verbatim>\<open>mark_reviewed\<close> on that id then returns \<open>False\<close> and leaves the whole state,
  review stack and practice queue included, as it was.
\<close>

theorem delete_then_mark_reviewed_not_found:
  "node_index (snd (delete_card s i)) i = None
   \<and> mark_reviewed (snd (delete_card s i)) i correct = (False, snd (delete_card s i))"
  by (simp add: mark_reviewed_def delete_card_index)

section \<open>The practice queue\<close>

lemma next_cards_queue:
  "fst (next_cards n s) =
     map Some (take n (practice_queue s)) @ replicate (n - length (practice_queue s)) None"
proof (induction n arbitrary: s)
  case 0
  show ?case by simp
next
  case (Suc n)
  show ?case
  proof (cases "practice_queue s")
    case Nil
    then have "next_card s = (None, s)" by (simp add: next_card_def)
    with Nil Suc [of s] show ?thesis by (simp add: replicate_append_same)
  next
    case (Cons r rest)
    then have "next_card s = (Some r, emit (Memory PracticeQueue) (s\<lparr>practice_queue := rest\<rparr>))"
      by (simp add: next_card_def)
    with Cons Suc [of "emit (Memory PracticeQueue) (s\<lparr>practice_queue := rest\<rparr>)"] show ?thesis
      by (simp add: emit_def)
  qed
qed

text \<open>
  C5. For an id in the card index, \<^verbatim>\<open>mark_reviewed\<close> with \<open>correct = False\<close> succeeds and
  appends the card's reference to the tail of the practice queue: the next
  \<open>length queue + 1\<close> calls of \<^verbatim>\<open>next_card\<close> return the cards queued before, in their
  order, and then that card. With \<open>correct = True\<close> the queue is unchanged.
\<close>

theorem mark_reviewed_requeues_at_tail:
  assumes "node_index s i = Some node"
  shows "fst (mark_reviewed s i False) = True
    \<and> practice_queue (snd (mark_reviewed s i False)) = practice_queue s @ [node]
    \<and> fst (next_cards (Suc (length (practice_queue s))) (snd (mark_reviewed s i False)))
        = map Some (practice_queue s) @ [Some node]
    \<and> practice_queue (snd (mark_reviewed s i True)) = practice_queue s"
proof -
  have q: "practice_queue (snd (mark_reviewed s i False)) = practice_queue s @ [node]"
    using assms by (simp add: mark_reviewed_def prim_defs)
  have "fst (next_cards (Suc (length (practice_queue s))) (snd (mark_reviewed s i False)))
        = map Some (practice_queue s) @ [Some node]"
    unfolding next_cards_queue q by simp
  moreover have "fst (mark_reviewed s i False) = True"
    using assms by (simp add: mark_reviewed_def prim_defs)
  moreover have "practice_queue (snd (mark_reviewed s i True)) = practice_queue s"
    using assms by (simp add: mark_reviewed_def prim_defs)
  ultimately show ?thesis using q by simp
qed

theorem mark_reviewed_requeues_at_tail_witness:
  "node_index one_card_db 1 = Some 0
    \<and> fst (mark_reviewed one_card_db 1 False) = True
    \<and> practice_queue (snd (mark_reviewed one_card_db 1 False)) = [0, 0]
    \<and> fst (next_cards 2 (snd (mark_reviewed one_card_db 1 False))) = [Some 0, Some 0]
    \<and> practice_queue (snd (mark_reviewed one_card_db 1 True)) = [0]"
proof -
  have h: "node_index one_card_db 1 = Some 0" by (simp add: one_card_db_eq)
  have q: "practice_queue one_card_db = [0]" by (simp add: one_card_db_eq)
  show ?thesis using h mark_reviewed_requeues_at_tail [OF h] by (simp add: q numeral_2_eq_2)
qed

section \<open>The review stack\<close>

lemma revisit_lasts_stack:
  "fst (revisit_lasts n s) =
     map Some (take n (rev (review_history s))) @ replicate (n - length (review_history s)) None"
proof (induction n arbitrary: s)
  case 0
  show ?case by simp
next
  case (Suc n)
  show ?case
  proof (cases "review_history s = []")
    case True
    then have "revisit_last s = (None, s)" by (simp add: revisit_last_def rh_pop_def)
    with True Suc [of s] show ?thesis by (simp add: replicate_append_same)
  next
    case False
    then obtain xs x where xs: "review_history s = xs @ [x]"
      by (cases "review_history s" rule: rev_cases) auto
    let ?s' = "emit (Memory ReviewStack) (s\<lparr>review_history := xs\<rparr>)"
    from xs have r: "revisit_last s = (Some x, ?s')"
      by (simp add: revisit_last_def rh_pop_def)
    from r xs Suc [of ?s'] show ?thesis
      by (simp add: emit_def)
  qed
qed

lemma mark_reviewed_index: "node_index (snd (mark_reviewed s i c)) = node_index s"
  by (simp add: mark_reviewed_def prim_defs Let_def split: option.splits)

lemma mark_reviewed_fst: "fst (mark_reviewed s i c) = (node_index s i \<noteq> None)"
  by (simp add: mark_reviewed_def Let_def split: option.splits)

lemma mark_reviewed_all_stack:
  "list_all (\<lambda>r. r) (fst (mark_reviewed_all s calls)) \<Longrightarrow>
   map Some (review_history (snd (mark_reviewed_all s calls)))
     = map Some (review_history s) @ map (\<lambda>(i, c). node_index s i) calls"
proof (induction calls arbitrary: s)
  case Nil
  show ?case by simp
next
  case (Cons call calls)
  obtain i c where call: "call = (i, c)" by (cases call)
  let ?s' = "snd (mark_reviewed s i c)"
  from Cons.prems call have ok: "fst (mark_reviewed s i c)"
    and rest: "list_all (\<lambda>r. r) (fst (mark_reviewed_all ?s' calls))"
    by simp_all
  from ok obtain node where node: "node_index s i = Some node"
    by (auto simp: mark_reviewed_def split: option.splits)
  then have st: "review_history ?s' = review_history s @ [node]"
    by (simp add: mark_reviewed_def prim_defs Let_def)
  from Cons.IH [OF rest] show ?case
    by (simp add: call st node mark_reviewed_index)
qed

text \<open>
  C6. Starting from an empty review stack, after any sequence of \<^verbatim>\<open>mark_reviewed\<close> calls
  that all succeeded (whatever their \<open>correct\<close> flags), the next calls of
  \<^verbatim>\<open>revisit_last\<close> return the reviewed cards in reverse order of the calls, one per
  call, and then nothing: for reviews of A, B, C they return C, B, A, \<open>None\<close>.
\<close>

theorem revisit_last_reverse_order:
  assumes "review_history s = []"
    and "list_all (\<lambda>r. r) (fst (mark_reviewed_all s calls))"
  shows "fst (revisit_lasts (Suc (length calls)) (snd (mark_reviewed_all s calls)))
     = map (\<lambda>(i, c). node_index s i) (rev calls) @ [None]"
proof -
  let ?s' = "snd (mark_reviewed_all s calls)"
  have m: "map Some (review_history ?s') = map (\<lambda>(i, c). node_index s i) calls"
    using mark_reviewed_all_stack [OF assms(2)] assms(1) by simp
  then have len: "length (review_history ?s') = length calls"
    by (metis length_map)
  have "map Some (rev (review_history ?s')) = map (\<lambda>(i, c). node_index s i) (rev calls)"
    using m by (simp add: rev_map [symmetric])
  then show ?thesis
    unfolding revisit_lasts_stack by (simp add: len)
qed

lemma three_cards_db_index: "node_index three_cards_db (Suc 0) = Some 0 \<and> node_index three_cards_db 2 = Some 1 \<and> node_index three_cards_db 3 = Some 2 \<and> review_history three_cards_db = []"
  by (simp add: three_cards_db_def add_card_def add_card_in_memory_def empty_db_def fresh_oid_def
      prim_defs modify_def Let_def)

theorem revisit_last_reverse_order_witness:
  "review_history three_cards_db = []
   \<and> fst (mark_reviewed_all three_cards_db [(1, True), (2, False), (3, True)]) = [True, True, True]
   \<and> fst (revisit_lasts 4 (snd (mark_reviewed_all three_cards_db [(1, True), (2, False), (3, True)])))
       = [Some 2, Some 1, Some 0, None]"
proof -
  let ?calls = "[(1, True), (2, False), (3, True)] :: (oid \<times> bool) list"
  have e: "review_history three_cards_db = []" by (simp add: three_cards_db_index)
  have r: "fst (mark_reviewed_all three_cards_db ?calls) = [True, True, True]"
    by (simp add: mark_reviewed_fst mark_reviewed_index three_cards_db_index)
  have ok: "list_all (\<lambda>r. r) (fst (mark_reviewed_all three_cards_db ?calls))"
    unfolding r by simp
  have n: "Suc (length ?calls) = 4" by simp
  have idx: "map (\<lambda>(i, c). node_index three_cards_db i) (rev ?calls) @ [None]
      = [Some 2, Some 1, Some 0, None]"
    by (simp add: three_cards_db_index)
  from revisit_last_reverse_order [OF e ok] have "fst (revisit_lasts 4 (snd (mark_reviewed_all three_cards_db ?calls)))
      = [Some 2, Some 1, Some 0, None]"
    unfolding n idx .
  with e r show ?thesis by blast
qed

section \<open>Writes to node objects\<close>

lemma length_modify [simp]: "length (modify n f h) = length h"
  by (simp add: modify_def)

lemma nth_modify: "m < length h \<Longrightarrow> modify n f h ! m = (if m = n then f (h ! n) else h ! m)"
  by (cases "n < length h") (auto simp: modify_def nth_list_update)

lemma map_modify_same: "(\<And>c. g (f c) = g c) \<Longrightarrow> map g (modify n f h) = map g h"
  by (cases "n < length h") (auto simp: modify_def list_eq_iff_nth_eq nth_list_update)

section \<open>Example states\<close>

lemma stale_db_eq:
  "stale_db =
     \<lparr>collection = [], last_oid = 1,
      heap = [\<lparr>card_id = Some 1, question = ''Q'', answer = ''A'', category = Some ''Math''\<rparr>],
      linked_list = [0], practice_queue = [0], review_history = [],
      category_manager = [Some ''Math'' \<mapsto> [0]], node_index = [1 \<mapsto> 0],
      trace = [Store Create, Memory OrderedList, Memory CardRecord, Memory CardRecord,
               Memory CardIndex, Memory PracticeQueue, Memory CategoryIndex]\<rparr>"
  by (simp add: stale_db_def one_card_db_eq)

lemma requeued_db_eq:
  "requeued_db =
     \<lparr>collection = [(1, \<lparr>doc_question = Some ''Q'', doc_answer = Some ''A'', doc_category = Some ''Math''\<rparr>)],
      last_oid = 1,
      heap = [\<lparr>card_id = Some 1, question = ''Q'', answer = ''A'', category = Some ''Math''\<rparr>],
      linked_list = [0], practice_queue = [0, 0, 0], review_history = [0, 0],
      category_manager = [Some ''Math'' \<mapsto> [0]], node_index = [1 \<mapsto> 0],
      trace = [Store Create, Memory OrderedList, Memory CardRecord, Memory CardRecord,
               Memory CardIndex, Memory PracticeQueue, Memory CategoryIndex,
               Memory ReviewStack, Memory PracticeQueue, Memory ReviewStack, Memory PracticeQueue]\<rparr>"
  by (simp add: requeued_db_def one_card_db_eq mark_reviewed_def prim_defs modify_def Let_def)

section \<open>Deleting a card that was queued more than once\<close>

text \<open>
  C3. The claim asks for no queue entry and no stack entry of a deleted card. One card is
  added and reviewed twice as not correct, so its node is three times in the practice
  queue and twice in the review stack; \<^verbatim>\<open>delete_card\<close> then succeeds, takes the id out of
  the index, and removes one entry from each: two queue entries and one stack entry of
  the deleted card remain.
\<close>

theorem delete_card_leaves_duplicates:
  "practice_queue requeued_db = [0, 0, 0]
   \<and> review_history requeued_db = [0, 0]
   \<and> node_index requeued_db 1 = Some 0
   \<and> fst (delete_card requeued_db 1) = True
   \<and> node_index (snd (delete_card requeued_db 1)) 1 = None
   \<and> practice_queue (snd (delete_card requeued_db 1)) = [0, 0]
   \<and> review_history (snd (delete_card requeued_db 1)) = [0]"
  by (simp add: requeued_db_eq delete_card_def ll_find_def prim_defs Let_def)

section \<open>Editing with a falsy category\<close>

lemma edit_card_falsy:
  "\<not> truthy cat \<Longrightarrow> edit_card s i q a cat = edit_card s i q a None"
  by (simp add: edit_card_def truthy_def Let_def split: prod.splits option.splits)

lemma edit_card_None_collection:
  "collection (snd (edit_card s i q a None)) =
     snd (update_first i \<lparr>set_question = q, set_answer = a, set_category = None\<rparr> (collection s))"
  by (simp add: edit_card_def truthy_def prim_defs Let_def split: prod.splits option.splits)

lemma edit_card_None_categories:
  "map category (heap (snd (edit_card s i q a None))) = map category (heap s)"
  by (simp add: edit_card_def truthy_def prim_defs Let_def map_modify_same
      split: prod.splits option.splits)

lemma edit_card_None_buckets:
  "category_manager (snd (edit_card s i q a None)) = category_manager s"
  by (simp add: edit_card_def truthy_def prim_defs Let_def split: prod.splits option.splits)

lemma edit_card_index_fields:
  "node_index s i = Some node \<Longrightarrow> node < length (heap s) \<Longrightarrow>
   question (heap (snd (edit_card s i q a cat)) ! node) = q
   \<and> answer (heap (snd (edit_card s i q a cat)) ! node) = a
   \<and> (truthy cat \<longrightarrow> category (heap (snd (edit_card s i q a cat)) ! node) = cat)"
  by (simp add: edit_card_def prim_defs Let_def nth_modify split: prod.splits option.splits)

text \<open>
  C10. \<^verbatim>\<open>edit_card\<close> with the empty string as new category gives the same result and the
  same state as \<^verbatim>\<open>edit_card\<close> with no new category: the store update carries no
  category field, the category of every node and all category buckets are unchanged, and
  the question and answer of the card found through the index are the new ones.
\<close>

theorem edit_card_empty_category:
  "edit_card s i q a (Some '''') = edit_card s i q a None
   \<and> collection (snd (edit_card s i q a (Some ''''))) =
       snd (update_first i \<lparr>set_question = q, set_answer = a, set_category = None\<rparr> (collection s))
   \<and> map category (heap (snd (edit_card s i q a (Some '''')))) = map category (heap s)
   \<and> category_manager (snd (edit_card s i q a (Some ''''))) = category_manager s
   \<and> (node_index s i = Some node \<and> node < length (heap s) \<longrightarrow>
        question (heap (snd (edit_card s i q a (Some ''''))) ! node) = q
        \<and> answer (heap (snd (edit_card s i q a (Some ''''))) ! node) = a)"
proof -
  have f: "edit_card s i q a (Some '''') = edit_card s i q a None"
    by (rule edit_card_falsy) (simp add: truthy_def)
  show ?thesis
    unfolding f
    using edit_card_index_fields [of s i node q a None]
    by (simp add: edit_card_None_collection edit_card_None_categories edit_card_None_buckets)
qed

theorem edit_card_empty_category_witness:
  "edit_card one_card_db 1 ''Q2'' ''A2'' (Some '''') = edit_card one_card_db 1 ''Q2'' ''A2'' None
   \<and> collection (snd (edit_card one_card_db 1 ''Q2'' ''A2'' (Some ''''))) =
       [(1, \<lparr>doc_question = Some ''Q2'', doc_answer = Some ''A2'', doc_category = Some ''Math''\<rparr>)]
   \<and> map category (heap (snd (edit_card one_card_db 1 ''Q2'' ''A2'' (Some '''')))) = [Some ''Math'']
   \<and> get_by_category (snd (edit_card one_card_db 1 ''Q2'' ''A2'' (Some ''''))) ''Math'' = [0]
   \<and> node_index one_card_db 1 = Some 0 \<and> 0 < length (heap one_card_db)
   \<and> question (heap (snd (edit_card one_card_db 1 ''Q2'' ''A2'' (Some ''''))) ! 0) = ''Q2''
   \<and> answer (heap (snd (edit_card one_card_db 1 ''Q2'' ''A2'' (Some ''''))) ! 0) = ''A2''"
proof -
  have c: "collection one_card_db =
      [(1, \<lparr>doc_question = Some ''Q'', doc_answer = Some ''A'', doc_category = Some ''Math''\<rparr>)]"
    and h: "map category (heap one_card_db) = [Some ''Math'']"
    and m: "category_manager one_card_db = [Some ''Math'' \<mapsto> [0]]"
    and n: "node_index one_card_db 1 = Some 0" and l: "0 < length (heap one_card_db)"
    by (simp_all add: one_card_db_eq)
  note t = edit_card_empty_category [of one_card_db 1 "''Q2''" "''A2''" 0]
  let ?s' = "snd (edit_card one_card_db 1 ''Q2'' ''A2'' (Some ''''))"
  from t have t1: "edit_card one_card_db 1 ''Q2'' ''A2'' (Some '''') = edit_card one_card_db 1 ''Q2'' ''A2'' None"
    by (rule conjunct1)
  from t have "collection ?s' =
      snd (update_first 1 \<lparr>set_question = ''Q2'', set_answer = ''A2'', set_category = None\<rparr> (collection one_card_db))"
    by blast
  then have t2: "collection ?s' =
      [(1, \<lparr>doc_question = Some ''Q2'', doc_answer = Some ''A2'', doc_category = Some ''Math''\<rparr>)]"
    by (simp add: c apply_set_def)
  from t have t3: "map category (heap ?s') = [Some ''Math'']"
    unfolding h by blast
  from t have "category_manager ?s' = [Some ''Math'' \<mapsto> [0]]"
    unfolding m by blast
  then have t4: "get_by_category ?s' ''Math'' = [0]"
    by (simp add: get_by_category_def cm_get_by_category_def)
  from t n l have t5: "question (heap ?s' ! 0) = ''Q2'' \<and> answer (heap ?s' ! 0) = ''A2''"
    by blast
  from t1 t2 t3 t4 t5 n l show ?thesis by blast
qed

section \<open>The result of an edit\<close>

lemma edit_card_fst:
  "fst (edit_card s i q a cat) =
     (fst (ll_edit_card s i q a)
      \<and> 0 < fst (update_one (snd (ll_edit_card s i q a)) i
                 \<lparr>set_question = q, set_answer = a,
                  set_category = (if truthy cat then cat else None)\<rparr>))"
  by (simp add: edit_card_def Let_def split: prod.splits option.splits)

lemma ll_edit_card_collection: "collection (snd (ll_edit_card s i q a)) = collection s"
  by (simp add: ll_edit_card_def emit_def split: option.splits)

lemma edit_card_collection:
  "collection (snd (edit_card s i q a cat)) =
     snd (update_first i \<lparr>set_question = q, set_answer = a,
                          set_category = (if truthy cat then cat else None)\<rparr> (collection s))"
  by (simp add: edit_card_def prim_defs Let_def split: prod.splits option.splits)

lemma edit_card_list_fields:
  "ll_find s i = Some node \<Longrightarrow> node < length (heap s) \<Longrightarrow>
   question (heap (snd (edit_card s i q a cat)) ! node) = q
   \<and> answer (heap (snd (edit_card s i q a cat)) ! node) = a"
  by (simp add: edit_card_def prim_defs Let_def nth_modify split: prod.splits option.splits)

lemma edit_card_result:
  "fst (edit_card s i q a cat) =
     (fst (ll_edit_card s i q a)
      \<and> 0 < fst (update_one (snd (ll_edit_card s i q a)) i
                 \<lparr>set_question = q, set_answer = a,
                  set_category = (if truthy cat then cat else None)\<rparr>))
   \<and> collection (snd (edit_card s i q a cat)) =
       snd (update_first i \<lparr>set_question = q, set_answer = a,
                            set_category = (if truthy cat then cat else None)\<rparr> (collection s))
   \<and> (ll_find s i = Some node \<and> node < length (heap s) \<longrightarrow>
        question (heap (snd (edit_card s i q a cat)) ! node) = q
        \<and> answer (heap (snd (edit_card s i q a cat)) ! node) = a)"
  using edit_card_fst [of s i q a cat] edit_card_collection [of s i q a cat]
    edit_card_list_fields [of s i node q a cat]
  by blast

lemma stale_find: "ll_find stale_db 1 = Some 0"
  by (simp add: stale_db_eq ll_find_def)

section \<open>Order of store calls and in-memory changes\<close>

lemma add_card_trace:
  "trace (snd (add_card s q a cat)) =
     trace s @ [Store Create, Memory OrderedList, Memory CardRecord, Memory CardRecord,
                Memory CardIndex, Memory PracticeQueue, Memory CategoryIndex]"
  by (simp add: add_card_def add_card_in_memory_def prim_defs Let_def)

lemma update_category_trace:
  "\<exists>ev. trace (update_category s old_cat new_cat node) = trace s @ ev \<and> list_all is_memory ev"
  by (simp add: prim_defs split: option.splits)

lemma edit_card_trace:
  "\<exists>ev. trace (snd (edit_card s i q a cat)) =
          trace s @ (if fst (ll_edit_card s i q a) then [Memory OrderedList] else [])
            @ Store Update # ev
        \<and> list_all is_memory ev"
proof -
  obtain ok s1 where l: "ll_edit_card s i q a = (ok, s1)" by (cases "ll_edit_card s i q a")
  then have t1: "trace s1 = trace s @ (if ok then [Memory OrderedList] else [])"
    by (auto simp: ll_edit_card_def emit_def split: option.splits)
  obtain n s2 where u: "update_one s1 i \<lparr>set_question = q, set_answer = a,
                    set_category = (if truthy cat then cat else None)\<rparr> = (n, s2)"
    by (cases "update_one s1 i \<lparr>set_question = q, set_answer = a,
                    set_category = (if truthy cat then cat else None)\<rparr>")
  then have t2: "trace s2 = trace s1 @ [Store Update]"
    by (auto simp: update_one_def emit_def)
  show ?thesis
  proof (cases "node_index s2 i")
    case None
    with l u t1 t2 show ?thesis
      by (simp add: edit_card_def)
  next
    case (Some node)
    let ?s5 = "set_answer_of (set_question_of s2 node q) node a"
    have t5: "trace ?s5 = trace s2 @ [Memory CardRecord, Memory CardRecord]"
      by (simp add: prim_defs)
    show ?thesis
    proof (cases "truthy cat")
      case False
      with Some l u t1 t2 t5 show ?thesis
        by (simp add: edit_card_def Let_def)
    next
      case True
      let ?s6 = "set_category_of ?s5 node cat"
      have t6: "trace ?s6 = trace s2 @ [Memory CardRecord, Memory CardRecord, Memory CardRecord]"
        by (simp add: prim_defs)
      obtain ev where ev: "trace (update_category ?s6 (category (heap ?s5 ! node)) cat node) = trace ?s6 @ ev"
        and m: "list_all is_memory ev"
        using update_category_trace by blast
      from True Some l u have "snd (edit_card s i q a cat) = update_category ?s6 (category (heap ?s5 ! node)) cat node"
        by (simp add: edit_card_def Let_def)
      with ev m t6 t2 t1 l show ?thesis by simp
    qed
  qed
qed

lemma delete_card_trace:
  "\<exists>ev. trace (snd (delete_card s i)) =
          trace s @ (if fst (ll_delete_card s i) then [Memory OrderedList] else [])
            @ Store Delete # ev
        \<and> list_all is_memory ev"
  by (simp add: delete_card_def prim_defs Let_def split: option.splits prod.splits)

lemma memory_before_store_split:
  "list_all is_memory pre \<Longrightarrow> memory_before_store (pre @ Store c # ev) = pre"
  by (simp add: memory_before_store_def list_all_iff takeWhile_append2)

lemma filter_store_split:
  "list_all is_memory pre \<Longrightarrow> list_all is_memory ev \<Longrightarrow>
   filter is_store (pre @ Store c # ev) = [Store c]"
proof -
  have "list_all is_memory xs \<Longrightarrow> filter is_store xs = []" for xs
    by (induction xs) (auto elim: is_memory.elims)
  then show "list_all is_memory pre \<Longrightarrow> list_all is_memory ev \<Longrightarrow>
   filter is_store (pre @ Store c # ev) = [Store c]" by simp
qed

text \<open>
  C1, as amended. \<^verbatim>\<open>add_card\<close> calls the store first: no in-memory structure is modified
  before \<^verbatim>\<open>insert_one\<close>. \<^verbatim>\<open>edit_card\<close> and \<^verbatim>\<open>delete_card\<close> first update the ordered
  list, which changes memory whenever the list holds the id, then call the store; every
  other in-memory change (node attributes through the index, card index, practice queue,
  review stack, category index) comes after the store call. Each of the three makes
  exactly one store call.
\<close>

theorem store_call_order:
  "memory_before_store (events_of s (snd (add_card s q a cat))) = []
   \<and> filter is_store (events_of s (snd (add_card s q a cat))) = [Store Create]
   \<and> memory_before_store (events_of s (snd (edit_card s i q a new_cat)))
        = (if fst (ll_edit_card s i q a) then [Memory OrderedList] else [])
   \<and> filter is_store (events_of s (snd (edit_card s i q a new_cat))) = [Store Update]
   \<and> memory_before_store (events_of s (snd (delete_card s i)))
        = (if fst (ll_delete_card s i) then [Memory OrderedList] else [])
   \<and> filter is_store (events_of s (snd (delete_card s i))) = [Store Delete]"
proof -
  have add: "memory_before_store (events_of s (snd (add_card s q a cat))) = []
     \<and> filter is_store (events_of s (snd (add_card s q a cat))) = [Store Create]"
    by (simp add: events_of_def add_card_trace memory_before_store_def)
  obtain ev where e: "events_of s (snd (edit_card s i q a new_cat)) =
      (if fst (ll_edit_card s i q a) then [Memory OrderedList] else []) @ Store Update # ev"
    and em: "list_all is_memory ev"
    using edit_card_trace [of s i q a new_cat] by (auto simp: events_of_def)
  have pre: "list_all is_memory (if b then [Memory OrderedList] else [])" for b by simp
  have edit: "memory_before_store (events_of s (snd (edit_card s i q a new_cat)))
        = (if fst (ll_edit_card s i q a) then [Memory OrderedList] else [])
     \<and> filter is_store (events_of s (snd (edit_card s i q a new_cat))) = [Store Update]"
    unfolding e using memory_before_store_split [OF pre] filter_store_split [OF pre em] by blast
  obtain dv where d: "events_of s (snd (delete_card s i)) =
      (if fst (ll_delete_card s i) then [Memory OrderedList] else []) @ Store Delete # dv"
    and dm: "list_all is_memory dv"
    using delete_card_trace [of s i] by (auto simp: events_of_def)
  have del: "memory_before_store (events_of s (snd (delete_card s i)))
        = (if fst (ll_delete_card s i) then [Memory OrderedList] else [])
     \<and> filter is_store (events_of s (snd (delete_card s i))) = [Store Delete]"
    unfolding d using memory_before_store_split [OF pre] filter_store_split [OF pre dm] by blast
  from add edit del show ?thesis by blast
qed

text \<open>
  C1, as stated, fails: with one card in store and memory, \<^verbatim>\<open>edit_card\<close> has already
  changed the card's question through the ordered list, and \<^verbatim>\<open>delete_card\<close> has already
  removed the card from the ordered list, when the store is called.
\<close>

theorem memory_written_before_store_call:
  "memory_before_store (events_of one_card_db (snd (edit_card one_card_db 1 ''Q2'' ''A2'' None)))
     = [Memory OrderedList]
   \<and> question (heap one_card_db ! 0) = ''Q''
   \<and> question (heap (snd (ll_edit_card one_card_db 1 ''Q2'' ''A2'')) ! 0) = ''Q2''
   \<and> memory_before_store (events_of one_card_db (snd (delete_card one_card_db 1)))
     = [Memory OrderedList]
   \<and> linked_list one_card_db = [0]
   \<and> linked_list (snd (ll_delete_card one_card_db 1)) = []"
  by (simp add: one_card_db_eq events_of_def memory_before_store_def edit_card_def delete_card_def
      ll_find_def truthy_def prim_defs modify_def Let_def)

section \<open>An edit the store does not apply\<close>

text \<open>
  C2, as stated, fails. The store no longer holds the card's document, so the update
  reports nothing modified and \<^verbatim>\<open>edit_card\<close> returns \<open>False\<close>; the card's question, answer
  and category are overwritten all the same and the card moves to the new bucket.
\<close>

theorem edit_card_store_failure_changes_memory:
  "fst (update_one (snd (ll_edit_card stale_db 1 ''Q2'' ''A2'')) 1
          \<lparr>set_question = ''Q2'', set_answer = ''A2'', set_category = Some ''Science''\<rparr>) = 0
   \<and> fst (edit_card stale_db 1 ''Q2'' ''A2'' (Some ''Science'')) = False
   \<and> heap stale_db =
       [\<lparr>card_id = Some 1, question = ''Q'', answer = ''A'', category = Some ''Math''\<rparr>]
   \<and> heap (snd (edit_card stale_db 1 ''Q2'' ''A2'' (Some ''Science''))) =
       [\<lparr>card_id = Some 1, question = ''Q2'', answer = ''A2'', category = Some ''Science''\<rparr>]
   \<and> get_by_category stale_db ''Math'' = [0]
   \<and> get_by_category (snd (edit_card stale_db 1 ''Q2'' ''A2'' (Some ''Science''))) ''Math'' = []
   \<and> get_by_category (snd (edit_card stale_db 1 ''Q2'' ''A2'' (Some ''Science''))) ''Science'' = [0]"
  by (simp add: stale_db_eq edit_card_def ll_find_def truthy_def get_by_category_def
      cm_get_by_category_def prim_defs modify_def Let_def)

lemma category_nth_modify:
  "(\<And>c. category (f c) = category c) \<Longrightarrow> category (modify n f h ! m) = category (h ! m)"
  by (cases "n < length h") (auto simp: modify_def nth_list_update list_update_beyond not_less)

lemma cm_get_add_to_category:
  "cm_get_by_category (add_to_category s c n) c' =
     (if c' = c then cm_get_by_category s c @ [n] else cm_get_by_category s c')"
  by (simp add: cm_get_by_category_def add_to_category_def emit_def split: option.splits)

lemma cm_get_remove_from_category_any:
  "cm_get_by_category (remove_from_category s c n) c' =
     (if c' = c then remove1 n (cm_get_by_category s c) else cm_get_by_category s c')"
  by (simp add: cm_get_by_category_def remove_from_category_def emit_def split: option.splits)

lemma cm_get_update_category:
  "cm_get_by_category (update_category s old_cat new_cat n) c =
     (if c = new_cat
      then (if old_cat = new_cat then remove1 n (cm_get_by_category s new_cat)
            else cm_get_by_category s new_cat) @ [n]
      else if c = old_cat then remove1 n (cm_get_by_category s old_cat)
      else cm_get_by_category s c)"
  by (simp add: update_category_def cm_get_add_to_category cm_get_remove_from_category_any)

lemma cm_get_cong:
  "category_manager s = category_manager s' \<Longrightarrow> cm_get_by_category s c = cm_get_by_category s' c"
  by (simp add: cm_get_by_category_def)

lemma edit_card_truthy_buckets:
  "node_index s i = Some node \<Longrightarrow> truthy cat \<Longrightarrow>
   category_manager (snd (edit_card s i q a cat)) =
     category_manager (update_category s (category (heap s ! node)) cat node)"
  by (simp add: edit_card_def prim_defs Let_def category_nth_modify
      split: prod.splits option.splits)

lemma edit_card_falsy_unchanged:
  "\<not> truthy cat \<Longrightarrow>
   category_manager (snd (edit_card s i q a cat)) = category_manager s
   \<and> category (heap (snd (edit_card s i q a cat)) ! node) = category (heap s ! node)"
  by (simp add: edit_card_def prim_defs Let_def category_nth_modify
      split: prod.splits option.splits)

text \<open>
  C2, as amended. When the store reports nothing modified, \<^verbatim>\<open>edit_card\<close> returns
  \<open>False\<close>, and the in-memory writes are made as in any other call. The card found
  through the index has the new question and answer. When a new category is given that is
  not empty, the card has that category and is moved in the category index: it is removed
  from the bucket of its old category and appended to the bucket of the new one, and every
  other bucket is as before; otherwise its category and all buckets are as before. When
  the id is neither in the ordered list nor in the card index, memory is unchanged.
\<close>

theorem edit_card_store_not_modified:
  assumes "fst (update_one (snd (ll_edit_card s i q a)) i
             \<lparr>set_question = q, set_answer = a,
              set_category = (if truthy cat then cat else None)\<rparr>) = 0"
  shows "fst (edit_card s i q a cat) = False
   \<and> (node_index s i = Some node \<and> node < length (heap s) \<longrightarrow>
        question (heap (snd (edit_card s i q a cat)) ! node) = q
        \<and> answer (heap (snd (edit_card s i q a cat)) ! node) = a
        \<and> (truthy cat \<longrightarrow>
             category (heap (snd (edit_card s i q a cat)) ! node) = cat
             \<and> cm_get_by_category (snd (edit_card s i q a cat)) c =
                 (if c = cat
                  then (if category (heap s ! node) = cat
                        then remove1 node (cm_get_by_category s cat)
                        else cm_get_by_category s cat) @ [node]
                  else if c = category (heap s ! node)
                       then remove1 node (cm_get_by_category s c)
                       else cm_get_by_category s c))
        \<and> (\<not> truthy cat \<longrightarrow>
             category (heap (snd (edit_card s i q a cat)) ! node) = category (heap s ! node)
             \<and> category_manager (snd (edit_card s i q a cat)) = category_manager s))
   \<and> (ll_find s i = None \<and> node_index s i = None \<longrightarrow>
        heap (snd (edit_card s i q a cat)) = heap s
        \<and> linked_list (snd (edit_card s i q a cat)) = linked_list s
        \<and> node_index (snd (edit_card s i q a cat)) = node_index s
        \<and> category_manager (snd (edit_card s i q a cat)) = category_manager s
        \<and> practice_queue (snd (edit_card s i q a cat)) = practice_queue s
        \<and> review_history (snd (edit_card s i q a cat)) = review_history s)"
proof -
  let ?s' = "snd (edit_card s i q a cat)"
  have r: "fst (edit_card s i q a cat) = False"
    using assms by (simp add: edit_card_fst)
  have w: "node_index s i = Some node \<and> node < length (heap s) \<longrightarrow>
        question (heap ?s' ! node) = q \<and> answer (heap ?s' ! node) = a
        \<and> (truthy cat \<longrightarrow> category (heap ?s' ! node) = cat)"
    using edit_card_index_fields [of s i node q a cat] by blast
  have b: "node_index s i = Some node \<and> truthy cat \<longrightarrow>
        cm_get_by_category ?s' c =
                 (if c = cat
                  then (if category (heap s ! node) = cat
                        then remove1 node (cm_get_by_category s cat)
                        else cm_get_by_category s cat) @ [node]
                  else if c = category (heap s ! node)
                       then remove1 node (cm_get_by_category s c)
                       else cm_get_by_category s c)"
  proof (intro impI, elim conjE)
    assume n: "node_index s i = Some node" and t: "truthy cat"
    have "cm_get_by_category ?s' c =
        cm_get_by_category (update_category s (category (heap s ! node)) cat node) c"
      by (rule cm_get_cong) (rule edit_card_truthy_buckets [OF n t])
    then show "cm_get_by_category ?s' c =
                 (if c = cat
                  then (if category (heap s ! node) = cat
                        then remove1 node (cm_get_by_category s cat)
                        else cm_get_by_category s cat) @ [node]
                  else if c = category (heap s ! node)
                       then remove1 node (cm_get_by_category s c)
                       else cm_get_by_category s c)"
      by (simp add: cm_get_update_category)
  qed
  have f: "\<not> truthy cat \<longrightarrow>
        category (heap ?s' ! node) = category (heap s ! node)
        \<and> category_manager ?s' = category_manager s"
    using edit_card_falsy_unchanged [of cat s i q a node] by blast
  have u: "ll_find s i = None \<and> node_index s i = None \<longrightarrow>
        heap ?s' = heap s \<and> linked_list ?s' = linked_list s \<and> node_index ?s' = node_index s
        \<and> category_manager ?s' = category_manager s \<and> practice_queue ?s' = practice_queue s
        \<and> review_history ?s' = review_history s"
    by (simp add: edit_card_def prim_defs Let_def)
  from r w b f u show ?thesis by blast
qed

lemma stale_no_two: "ll_find stale_db 2 = None \<and> node_index stale_db 2 = None"
  by (simp add: stale_db_eq ll_find_def)

theorem edit_card_store_not_modified_witness:
  "fst (update_one (snd (ll_edit_card stale_db 1 ''Q2'' ''A2'')) 1
          \<lparr>set_question = ''Q2'', set_answer = ''A2'', set_category = Some ''Science''\<rparr>) = 0
   \<and> node_index stale_db 1 = Some 0 \<and> 0 < length (heap stale_db) \<and> truthy (Some ''Science'')
   \<and> category (heap stale_db ! 0) = Some ''Math''
   \<and> get_by_category stale_db ''Math'' = [0]
   \<and> get_by_category stale_db ''Science'' = []
   \<and> fst (edit_card stale_db 1 ''Q2'' ''A2'' (Some ''Science'')) = False
   \<and> question (heap (snd (edit_card stale_db 1 ''Q2'' ''A2'' (Some ''Science''))) ! 0) = ''Q2''
   \<and> answer (heap (snd (edit_card stale_db 1 ''Q2'' ''A2'' (Some ''Science''))) ! 0) = ''A2''
   \<and> category (heap (snd (edit_card stale_db 1 ''Q2'' ''A2'' (Some ''Science''))) ! 0) = Some ''Science''
   \<and> get_by_category (snd (edit_card stale_db 1 ''Q2'' ''A2'' (Some ''Science''))) ''Math'' = []
   \<and> get_by_category (snd (edit_card stale_db 1 ''Q2'' ''A2'' (Some ''Science''))) ''Science'' = [0]
   \<and> fst (update_one (snd (ll_edit_card stale_db 2 ''Q2'' ''A2'')) 2
          \<lparr>set_question = ''Q2'', set_answer = ''A2'', set_category = Some ''Science''\<rparr>) = 0
   \<and> ll_find stale_db 2 = None \<and> node_index stale_db 2 = None
   \<and> fst (edit_card stale_db 2 ''Q2'' ''A2'' (Some ''Science'')) = False
   \<and> heap (snd (edit_card stale_db 2 ''Q2'' ''A2'' (Some ''Science''))) = heap stale_db
   \<and> category_manager (snd (edit_card stale_db 2 ''Q2'' ''A2'' (Some ''Science''))) = category_manager stale_db"
proof -
  let ?s1 = "snd (edit_card stale_db 1 ''Q2'' ''A2'' (Some ''Science''))"
  have c: "collection stale_db = []" and n: "node_index stale_db 1 = Some 0"
    and l: "0 < length (heap stale_db)"
    and k: "category (heap stale_db ! 0) = Some ''Math''"
    and gm: "get_by_category stale_db ''Math'' = [0]"
    and gs: "get_by_category stale_db ''Science'' = []"
    by (simp_all add: stale_db_eq get_by_category_def cm_get_by_category_def)
  have tr: "truthy (Some ''Science'')" by (simp add: truthy_def)
  have db: "fst (update_one (snd (ll_edit_card stale_db j ''Q2'' ''A2'')) j
          \<lparr>set_question = ''Q2'', set_answer = ''A2'', set_category = Some ''Science''\<rparr>) = 0" for j
    by (simp add: update_one_def ll_edit_card_collection c)
  have db': "fst (update_one (snd (ll_edit_card stale_db j ''Q2'' ''A2'')) j
          \<lparr>set_question = ''Q2'', set_answer = ''A2'',
           set_category = (if truthy (Some ''Science'') then Some ''Science'' else None)\<rparr>) = 0" for j
    using db [of j] tr by simp
  note m = edit_card_store_not_modified [OF db' [of 1], of 0 "Some ''Math''"]
  note sc = edit_card_store_not_modified [OF db' [of 1], of 0 "Some ''Science''"]
  note t2 = edit_card_store_not_modified [OF db' [of 2], of 0 "Some ''Math''"]
  from m n l tr have a: "fst (edit_card stale_db 1 ''Q2'' ''A2'' (Some ''Science'')) = False
   \<and> question (heap ?s1 ! 0) = ''Q2'' \<and> answer (heap ?s1 ! 0) = ''A2''
   \<and> category (heap ?s1 ! 0) = Some ''Science''"
    by blast
  from m n l tr have "cm_get_by_category ?s1 (Some ''Math'') =
      (if Some ''Math'' = Some ''Science''
       then (if category (heap stale_db ! 0) = Some ''Science''
             then remove1 0 (cm_get_by_category stale_db (Some ''Science''))
             else cm_get_by_category stale_db (Some ''Science'')) @ [0]
       else if Some ''Math'' = category (heap stale_db ! 0)
            then remove1 0 (cm_get_by_category stale_db (Some ''Math''))
            else cm_get_by_category stale_db (Some ''Math''))"
    by blast
  with k gm have bm: "get_by_category ?s1 ''Math'' = []"
    by (simp add: get_by_category_def)
  from sc n l tr have "cm_get_by_category ?s1 (Some ''Science'') =
      (if Some ''Science'' = Some ''Science''
       then (if category (heap stale_db ! 0) = Some ''Science''
             then remove1 0 (cm_get_by_category stale_db (Some ''Science''))
             else cm_get_by_category stale_db (Some ''Science'')) @ [0]
       else if Some ''Science'' = category (heap stale_db ! 0)
            then remove1 0 (cm_get_by_category stale_db (Some ''Science''))
            else cm_get_by_category stale_db (Some ''Science''))"
    by blast
  with k gs have bs: "get_by_category ?s1 ''Science'' = [0]"
    by (simp add: get_by_category_def)
  from t2 stale_no_two have b: "fst (edit_card stale_db 2 ''Q2'' ''A2'' (Some ''Science'')) = False
   \<and> heap (snd (edit_card stale_db 2 ''Q2'' ''A2'' (Some ''Science''))) = heap stale_db
   \<and> category_manager (snd (edit_card stale_db 2 ''Q2'' ''A2'' (Some ''Science''))) = category_manager stale_db"
    by blast
  from a bm bs b db [of 1] db [of 2] n l tr k gm gs stale_no_two show ?thesis by blast
qed

lemma three_cards_db_eq:
  "three_cards_db =
     \<lparr>collection =
        [(1, \<lparr>doc_question = Some ''Q1'', doc_answer = Some ''A1'', doc_category = Some ''Math''\<rparr>),
         (2, \<lparr>doc_question = Some ''Q2'', doc_answer = Some ''A2'', doc_category = Some ''Math''\<rparr>),
         (3, \<lparr>doc_question = Some ''Q3'', doc_answer = Some ''A3'', doc_category = Some ''Science''\<rparr>)],
      last_oid = 3,
      heap =
        [\<lparr>card_id = Some 1, question = ''Q1'', answer = ''A1'', category = Some ''Math''\<rparr>,
         \<lparr>card_id = Some 2, question = ''Q2'', answer = ''A2'', category = Some ''Math''\<rparr>,
         \<lparr>card_id = Some 3, question = ''Q3'', answer = ''A3'', category = Some ''Science''\<rparr>],
      linked_list = [0, 1, 2], practice_queue = [0, 1, 2], review_history = [],
      category_manager = [Some ''Math'' \<mapsto> [0, 1], Some ''Science'' \<mapsto> [2]],
      node_index = [1 \<mapsto> 0, 2 \<mapsto> 1, 3 \<mapsto> 2],
      trace = [Store Create, Memory OrderedList, Memory CardRecord, Memory CardRecord,
               Memory CardIndex, Memory PracticeQueue, Memory CategoryIndex,
               Store Create, Memory OrderedList, Memory CardRecord, Memory CardRecord,
               Memory CardIndex, Memory PracticeQueue, Memory CategoryIndex,
               Store Create, Memory OrderedList, Memory CardRecord, Memory CardRecord,
               Memory CardIndex, Memory PracticeQueue, Memory CategoryIndex]\<rparr>"
  by (simp add: three_cards_db_def add_card_def add_card_in_memory_def empty_db_def fresh_oid_def
      prim_defs modify_def Let_def numeral_2_eq_2 numeral_3_eq_3)

text \<open>
  The same without a stale store: an edit that names the values the card already has is
  reported as not modified by the store, and still moves the card to the end of its
  bucket.
\<close>

lemma edit_card_same_values_reorders_bucket:
  "fst (edit_card three_cards_db 1 ''Q1'' ''A1'' (Some ''Math'')) = False
   \<and> collection (snd (edit_card three_cards_db 1 ''Q1'' ''A1'' (Some ''Math''))) = collection three_cards_db
   \<and> get_by_category three_cards_db ''Math'' = [0, 1]
   \<and> get_by_category (snd (edit_card three_cards_db 1 ''Q1'' ''A1'' (Some ''Math''))) ''Math'' = [1, 0]"
  by (simp add: three_cards_db_eq edit_card_def ll_find_def truthy_def get_by_category_def
      cm_get_by_category_def prim_defs modify_def apply_set_def Let_def)

section \<open>Loading at start-up\<close>

lemma modify_append_last: "modify (length h) f (h @ [c]) = h @ [f c]"
  by (simp add: modify_def)

lemma add_card_in_memory_eq:
  "add_card_in_memory s i q a cat =
     (length (heap s),
      s\<lparr>heap := heap s @ [\<lparr>card_id = Some i, question = q, answer = a, category = Some cat\<rparr>],
        linked_list := linked_list s @ [length (heap s)],
        node_index := (node_index s)(i \<mapsto> length (heap s)),
        practice_queue := practice_queue s @ [length (heap s)],
        category_manager := (category_manager s)
          (Some cat \<mapsto> cm_get_by_category s (Some cat) @ [length (heap s)]),
        trace := trace s @ [Memory OrderedList, Memory CardRecord, Memory CardRecord,
                            Memory CardIndex, Memory PracticeQueue, Memory CategoryIndex]\<rparr>)"
  by (simp add: add_card_in_memory_def prim_defs Let_def modify_append_last cm_get_by_category_def
      split: option.splits)

lemma load_card_eq:
  "doc_question d = Some q \<Longrightarrow> doc_answer d = Some a \<Longrightarrow>
   load_card s (i, d) =
     Inr (snd (add_card_in_memory s i q a
                (case doc_category d of None \<Rightarrow> ''Uncategorized'' | Some c \<Rightarrow> c)))"
  by (simp add: load_card_def add_card_in_memory_def Let_def split: prod.splits)

lemma load_cards_eq:
  "list_all (\<lambda>(i, d). doc_question d \<noteq> None \<and> doc_answer d \<noteq> None) docs \<Longrightarrow>
   load_cards s docs =
     Inr (foldl (\<lambda>s (i, d). snd (add_card_in_memory s i (the (doc_question d)) (the (doc_answer d))
                  (case doc_category d of None \<Rightarrow> ''Uncategorized'' | Some c \<Rightarrow> c))) s docs)"
proof (induction docs arbitrary: s)
  case Nil
  show ?case by simp
next
  case (Cons card_data docs)
  obtain i d where cd: "card_data = (i, d)" by (cases card_data)
  with Cons.prems obtain q a where qa: "doc_question d = Some q" "doc_answer d = Some a"
    by auto
  from Cons.prems have rest: "list_all (\<lambda>(i, d). doc_question d \<noteq> None \<and> doc_answer d \<noteq> None) docs"
    by simp
  show ?case
    by (simp add: cd load_card_eq [OF qa] qa Cons.IH [OF rest])
qed

lemma add_card_in_memory_store:
  "collection (snd (add_card_in_memory s i q a cat)) = collection s
   \<and> filter is_store (trace (snd (add_card_in_memory s i q a cat))) = filter is_store (trace s)"
  by (simp add: add_card_in_memory_eq)

lemma foldl_add_in_memory_store:
  "collection (foldl (\<lambda>s (i, d). snd (add_card_in_memory s i (f d) (g d) (h d))) s docs) = collection s
   \<and> filter is_store (trace (foldl (\<lambda>s (i, d). snd (add_card_in_memory s i (f d) (g d) (h d))) s docs))
       = filter is_store (trace s)"
  by (induction docs arbitrary: s) (simp_all add: add_card_in_memory_store split: prod.splits)

text \<open>
  C8. For a collection whose documents all have a question and an answer, the constructor
  succeeds, and its state is the empty state over that collection after, for each
  document returned by \<^verbatim>\<open>find\<close> in turn, the in-memory part of \<^verbatim>\<open>add_card\<close> with the
  document's id, question and answer, and its category or \<open>''Uncategorized''\<close> when the
  document has none. The collection is untouched and no store call is made.
  \<^verbatim>\<open>add_card\<close> is \<^verbatim>\<open>insert_one\<close> followed by that same in-memory part, which creates the
  node, appends it to the ordered list, enters it in the card index, enqueues it and
  appends it to its category bucket.
\<close>

theorem load_is_in_memory_add:
  assumes "list_all (\<lambda>(i, d). doc_question d \<noteq> None \<and> doc_answer d \<noteq> None) coll"
  shows "(case init_db coll of
            Inl e \<Rightarrow> False
          | Inr s' \<Rightarrow>
              s' = foldl (\<lambda>s (i, d). snd (add_card_in_memory s i (the (doc_question d))
                            (the (doc_answer d))
                            (case doc_category d of None \<Rightarrow> ''Uncategorized'' | Some c \<Rightarrow> c)))
                     (empty_db coll) coll
              \<and> collection s' = coll
              \<and> filter is_store (trace s') = [])
    \<and> add_card s q a cat =
        add_card_in_memory
          (snd (insert_one s \<lparr>doc_question = Some q, doc_answer = Some a, doc_category = Some cat\<rparr>))
          (fst (insert_one s \<lparr>doc_question = Some q, doc_answer = Some a, doc_category = Some cat\<rparr>))
          q a cat
    \<and> add_card_in_memory s i q a cat =
       (length (heap s),
        s\<lparr>heap := heap s @ [\<lparr>card_id = Some i, question = q, answer = a, category = Some cat\<rparr>],
          linked_list := linked_list s @ [length (heap s)],
          node_index := (node_index s)(i \<mapsto> length (heap s)),
          practice_queue := practice_queue s @ [length (heap s)],
          category_manager := (category_manager s)
            (Some cat \<mapsto> cm_get_by_category s (Some cat) @ [length (heap s)]),
          trace := trace s @ [Memory OrderedList, Memory CardRecord, Memory CardRecord,
                              Memory CardIndex, Memory PracticeQueue, Memory CategoryIndex]\<rparr>)"
proof -
  have e: "collection (empty_db coll) = coll" "filter is_store (trace (empty_db coll)) = []"
    by (simp_all add: empty_db_def)
  have "init_db coll = load_cards (empty_db coll) coll"
    by (simp add: init_db_def load_cards_into_memory_def find_all_def e)
  with load_cards_eq [OF assms, of "empty_db coll"]
  have 1: "init_db coll = Inr (foldl (\<lambda>s (i, d). snd (add_card_in_memory s i (the (doc_question d))
                            (the (doc_answer d))
                            (case doc_category d of None \<Rightarrow> ''Uncategorized'' | Some c \<Rightarrow> c)))
                     (empty_db coll) coll)"
    by simp
  have 2: "add_card s q a cat =
        add_card_in_memory
          (snd (insert_one s \<lparr>doc_question = Some q, doc_answer = Some a, doc_category = Some cat\<rparr>))
          (fst (insert_one s \<lparr>doc_question = Some q, doc_answer = Some a, doc_category = Some cat\<rparr>))
          q a cat"
    by (simp add: add_card_def Let_def split: prod.splits)
  show ?thesis
    unfolding 1 using 2 foldl_add_in_memory_store [of _ _ _ "empty_db coll" coll] e
    by (simp add: add_card_in_memory_eq)
qed

theorem load_is_in_memory_add_witness:
  "list_all (\<lambda>(i, d). doc_question d \<noteq> None \<and> doc_answer d \<noteq> None) stored_docs
   \<and> init_db stored_docs =
       Inr \<lparr>collection = stored_docs, last_oid = 7,
            heap = [\<lparr>card_id = Some 5, question = ''Q5'', answer = ''A5'', category = Some ''Uncategorized''\<rparr>,
                    \<lparr>card_id = Some 7, question = ''Q7'', answer = ''A7'', category = Some ''Math''\<rparr>],
            linked_list = [0, 1], practice_queue = [0, 1], review_history = [],
            category_manager = [Some ''Uncategorized'' \<mapsto> [0], Some ''Math'' \<mapsto> [1]],
            node_index = [5 \<mapsto> 0, 7 \<mapsto> 1],
            trace = [Memory OrderedList, Memory CardRecord, Memory CardRecord,
                     Memory CardIndex, Memory PracticeQueue, Memory CategoryIndex,
                     Memory OrderedList, Memory CardRecord, Memory CardRecord,
                     Memory CardIndex, Memory PracticeQueue, Memory CategoryIndex]\<rparr>"
proof -
  have h: "list_all (\<lambda>(i, d). doc_question d \<noteq> None \<and> doc_answer d \<noteq> None) stored_docs"
    by (simp add: stored_docs_def)
  note t = load_is_in_memory_add [OF h, of "empty_db []" "''Q''" "''A''" "''Math''" 1]
  then obtain s' where i: "init_db stored_docs = Inr s'"
    and s': "s' = foldl (\<lambda>s (i, d). snd (add_card_in_memory s i (the (doc_question d))
                            (the (doc_answer d))
                            (case doc_category d of None \<Rightarrow> ''Uncategorized'' | Some c \<Rightarrow> c)))
                     (empty_db stored_docs) stored_docs"
    by (cases "init_db stored_docs") auto
  have "s' = \<lparr>collection = stored_docs, last_oid = 7,
            heap = [\<lparr>card_id = Some 5, question = ''Q5'', answer = ''A5'', category = Some ''Uncategorized''\<rparr>,
                    \<lparr>card_id = Some 7, question = ''Q7'', answer = ''A7'', category = Some ''Math''\<rparr>],
            linked_list = [0, 1], practice_queue = [0, 1], review_history = [],
            category_manager = [Some ''Uncategorized'' \<mapsto> [0], Some ''Math'' \<mapsto> [1]],
            node_index = [5 \<mapsto> 0, 7 \<mapsto> 1],
            trace = [Memory OrderedList, Memory CardRecord, Memory CardRecord,
                     Memory CardIndex, Memory PracticeQueue, Memory CategoryIndex,
                     Memory OrderedList, Memory CardRecord, Memory CardRecord,
                     Memory CardIndex, Memory PracticeQueue, Memory CategoryIndex]\<rparr>"
    unfolding s'
    by (simp add: stored_docs_def empty_db_def add_card_in_memory_eq cm_get_by_category_def)
  with h i show ?thesis by simp
qed

section \<open>References stay allocated\<close>

text \<open>
  \<open>valid_refs\<close> holds after construction and is kept by every operation, so it holds in
  every state the program reaches.
\<close>

lemma in_set_remove1D: "x \<in> set (remove1 y xs) \<Longrightarrow> x \<in> set xs"
  by (metis notin_set_remove1)

lemma valid_refs_emit [simp]: "valid_refs (emit e s) = valid_refs s"
  by (simp add: valid_refs_def emit_def)

lemma heap_emit [simp]: "heap (emit e s) = heap s"
  by (simp add: emit_def)

lemma valid_refs_bucket:
  "valid_refs s \<Longrightarrow> category_manager s c = Some b \<Longrightarrow> r \<in> set b \<Longrightarrow> r < length (heap s)"
  by (auto simp: valid_refs_def list_all_iff)

lemma valid_refs_index:
  "valid_refs s \<Longrightarrow> node_index s i = Some r \<Longrightarrow> r < length (heap s)"
  by (simp add: valid_refs_def)

lemma valid_refs_collection [simp]: "valid_refs (s\<lparr>collection := c\<rparr>) = valid_refs s"
  by (simp add: valid_refs_def)

lemma valid_refs_last_oid [simp]: "valid_refs (s\<lparr>last_oid := n\<rparr>) = valid_refs s"
  by (simp add: valid_refs_def)

lemma valid_refs_modify [simp]: "valid_refs (s\<lparr>heap := modify n f (heap s)\<rparr>) = valid_refs s"
  by (simp add: valid_refs_def)

lemma valid_refs_store:
  "valid_refs (snd (insert_one s d)) = valid_refs s"
  "valid_refs (snd (update_one s i u)) = valid_refs s"
  "valid_refs (snd (delete_one s i)) = valid_refs s"
  by (simp_all add: insert_one_def update_one_def delete_one_def Let_def)

lemma heap_store:
  "heap (snd (insert_one s d)) = heap s"
  "heap (snd (update_one s i u)) = heap s"
  "heap (snd (delete_one s i)) = heap s"
  by (simp_all add: insert_one_def update_one_def delete_one_def Let_def)

lemma valid_refs_ll_edit_card: "valid_refs (snd (ll_edit_card s i q a)) = valid_refs s"
  by (simp add: ll_edit_card_def split: option.splits)

lemma valid_refs_ll_delete_card: "valid_refs s \<Longrightarrow> valid_refs (snd (ll_delete_card s i))"
  by (auto simp: ll_delete_card_def emit_def valid_refs_def list_all_iff split: option.splits
      dest: in_set_remove1D)

lemma valid_refs_set_of [simp]:
  "valid_refs (set_card_id s n i) = valid_refs s"
  "valid_refs (set_category_of s n c) = valid_refs s"
  "valid_refs (set_question_of s n q) = valid_refs s"
  "valid_refs (set_answer_of s n a) = valid_refs s"
  by (simp_all add: set_card_id_def set_category_of_def set_question_of_def set_answer_of_def)

lemma length_heap_set_of [simp]:
  "length (heap (set_card_id s n i)) = length (heap s)"
  "length (heap (set_category_of s n c)) = length (heap s)"
  "length (heap (set_question_of s n q)) = length (heap s)"
  "length (heap (set_answer_of s n a)) = length (heap s)"
  by (simp_all add: set_card_id_def set_category_of_def set_question_of_def set_answer_of_def)

lemma valid_refs_index_pop: "valid_refs s \<Longrightarrow> valid_refs (snd (index_pop s i))"
  by (auto simp: index_pop_def emit_def valid_refs_def split: option.splits if_splits)

lemma valid_refs_queue_remove: "valid_refs s \<Longrightarrow> valid_refs (queue_remove s n)"
  by (auto simp: queue_remove_def emit_def valid_refs_def list_all_iff dest: in_set_remove1D)

lemma valid_refs_stack_remove: "valid_refs s \<Longrightarrow> valid_refs (stack_remove s n)"
  by (auto simp: stack_remove_def emit_def valid_refs_def list_all_iff dest: in_set_remove1D)

lemma valid_refs_remove_from_category: "valid_refs s \<Longrightarrow> valid_refs (remove_from_category s c n)"
proof -
  assume v: "valid_refs s"
  show ?thesis
  proof (cases "category_manager s c")
    case None
    with v show ?thesis by (simp add: remove_from_category_def)
  next
    case (Some b)
    from v Some have b: "\<forall>r\<in>set (remove1 n b). r < length (heap s)"
      by (auto dest: in_set_remove1D valid_refs_bucket)
    from v have o: "\<And>c' b' r. category_manager s c' = Some b' \<Longrightarrow> r \<in> set b' \<Longrightarrow> r < length (heap s)"
      by (rule valid_refs_bucket)
    from v b o Some show ?thesis
      by (auto simp: remove_from_category_def emit_def valid_refs_def list_all_iff split: if_splits)
  qed
qed

lemma valid_refs_add_to_category:
  "valid_refs s \<Longrightarrow> n < length (heap s) \<Longrightarrow> valid_refs (add_to_category s c n)"
proof -
  assume v: "valid_refs s" and n: "n < length (heap s)"
  from v have o: "\<And>c' b' r. category_manager s c' = Some b' \<Longrightarrow> r \<in> set b' \<Longrightarrow> r < length (heap s)"
    by (rule valid_refs_bucket)
  from v n o show ?thesis
    by (auto simp: add_to_category_def emit_def valid_refs_def list_all_iff split: if_splits option.splits)
qed

lemma heap_category_ops [simp]:
  "heap (remove_from_category s c n) = heap s"
  "heap (add_to_category s c n) = heap s"
  "heap (queue_remove s n) = heap s"
  "heap (stack_remove s n) = heap s"
  "heap (queue_append s n) = heap s"
  "heap (rh_push s n) = heap s"
  "heap (snd (index_pop s i)) = heap s"
  "heap (snd (ll_delete_card s i)) = heap s"
  by (simp_all add: remove_from_category_def add_to_category_def queue_remove_def
      stack_remove_def queue_append_def rh_push_def index_pop_def ll_delete_card_def
      split: option.splits)

lemma valid_refs_update_category:
  "valid_refs s \<Longrightarrow> n < length (heap s) \<Longrightarrow> valid_refs (update_category s old_cat new_cat n)"
  by (simp add: update_category_def valid_refs_add_to_category valid_refs_remove_from_category)

lemma valid_refs_push:
  "valid_refs s \<Longrightarrow> n < length (heap s) \<Longrightarrow> valid_refs (rh_push s n)"
  "valid_refs s \<Longrightarrow> n < length (heap s) \<Longrightarrow> valid_refs (queue_append s n)"
  by (auto simp: rh_push_def queue_append_def emit_def valid_refs_def list_all_iff)

lemma valid_refs_empty_db: "valid_refs (empty_db coll)"
  by (simp add: valid_refs_def empty_db_def)

lemma valid_refs_get_by_category:
  "valid_refs s \<Longrightarrow> r \<in> set (cm_get_by_category s c) \<Longrightarrow> r < length (heap s)"
  by (cases "category_manager s c") (auto simp: cm_get_by_category_def dest: valid_refs_bucket)

lemma valid_refs_add_card_in_memory:
  "valid_refs s \<Longrightarrow> valid_refs (snd (add_card_in_memory s i q a cat))"
proof -
  assume v: "valid_refs s"
  from v have o: "\<And>c' b' r. category_manager s c' = Some b' \<Longrightarrow> r \<in> set b' \<Longrightarrow> r < length (heap s)"
    by (rule valid_refs_bucket)
  from v have g: "\<And>r c. r \<in> set (cm_get_by_category s c) \<Longrightarrow> r < length (heap s)"
    by (rule valid_refs_get_by_category)
  from v o g show ?thesis
    by (auto simp: valid_refs_def list_all_iff add_card_in_memory_eq
        less_Suc_eq split: if_splits)
qed

lemma valid_refs_add_card: "valid_refs s \<Longrightarrow> valid_refs (snd (add_card s q a cat))"
  by (simp add: add_card_def Let_def split_beta valid_refs_add_card_in_memory valid_refs_store)

lemma valid_refs_load_cards:
  "valid_refs s \<Longrightarrow> load_cards s docs = Inr s' \<Longrightarrow> valid_refs s'"
proof (induction docs arbitrary: s)
  case Nil
  then show ?case by simp
next
  case (Cons card_data docs)
  from Cons.prems(2) obtain s1 where l: "load_card s card_data = Inr s1"
    and r: "load_cards s1 docs = Inr s'"
    by (auto split: sum.splits)
  from l obtain q a where "doc_question (snd card_data) = Some q" "doc_answer (snd card_data) = Some a"
    by (auto simp: load_card_def split: option.splits)
  with l load_card_eq [of "snd card_data" q a s "fst card_data"]
  have "s1 = snd (add_card_in_memory s (fst card_data) q a
                (case doc_category (snd card_data) of None \<Rightarrow> ''Uncategorized'' | Some c \<Rightarrow> c))"
    by simp
  with Cons.prems(1) have "valid_refs s1" by (simp add: valid_refs_add_card_in_memory)
  from this r show ?case by (rule Cons.IH)
qed

lemma valid_refs_init_db: "init_db coll = Inr s \<Longrightarrow> valid_refs s"
  using valid_refs_load_cards [OF valid_refs_empty_db]
  by (simp add: init_db_def load_cards_into_memory_def find_all_def empty_db_def)

lemma valid_refs_edit_card: "valid_refs s \<Longrightarrow> valid_refs (snd (edit_card s i q a cat))"
proof -
  assume v: "valid_refs s"
  let ?s2 = "snd (update_one (snd (ll_edit_card s i q a)) i
               \<lparr>set_question = q, set_answer = a,
                set_category = (if truthy cat then cat else None)\<rparr>)"
  from v have v2: "valid_refs ?s2"
    by (simp add: valid_refs_store valid_refs_ll_edit_card)
  show ?thesis
  proof (cases "node_index ?s2 i")
    case None
    then have "snd (edit_card s i q a cat) = ?s2"
      by (simp add: edit_card_def Let_def split_beta)
    with v2 show ?thesis by simp
  next
    case (Some node)
    with v2 have n: "node < length (heap ?s2)" by (rule valid_refs_index)
    let ?s5 = "set_answer_of (set_question_of ?s2 node q) node a"
    from Some have e: "snd (edit_card s i q a cat) =
        (if truthy cat
         then update_category (set_category_of ?s5 node cat) (category (heap ?s5 ! node)) cat node
         else ?s5)"
      by (simp add: edit_card_def Let_def split_beta)
    from v2 n show ?thesis
      unfolding e by (cases "truthy cat") (simp_all add: valid_refs_update_category)
  qed
qed

lemma valid_refs_delete_card: "valid_refs s \<Longrightarrow> valid_refs (snd (delete_card s i))"
proof -
  assume v: "valid_refs s"
  let ?s2 = "snd (delete_one (snd (ll_delete_card s i)) i)"
  let ?s3 = "snd (index_pop ?s2 i)"
  from v have v3: "valid_refs ?s3"
    by (simp add: valid_refs_store valid_refs_ll_delete_card valid_refs_index_pop)
  show ?thesis
  proof (cases "fst (index_pop ?s2 i)")
    case None
    then have "snd (delete_card s i) = ?s3"
      by (simp add: delete_card_def Let_def split_beta)
    with v3 show ?thesis by simp
  next
    case (Some node)
    let ?s5 = "if node \<in> set (practice_queue ?s3) then queue_remove ?s3 node else ?s3"
    let ?s6 = "if node \<in> set (review_history ?s5) then stack_remove ?s5 node else ?s5"
    from Some have e: "snd (delete_card s i) = remove_from_category ?s6 (category (heap ?s6 ! node)) node"
      by (simp add: delete_card_def Let_def split_beta)
    from v3 have "valid_refs ?s5" by (simp add: valid_refs_queue_remove)
    then have "valid_refs ?s6" by (simp add: valid_refs_stack_remove)
    then show ?thesis
      unfolding e by (rule valid_refs_remove_from_category)
  qed
qed

lemma valid_refs_next_card: "valid_refs s \<Longrightarrow> valid_refs (snd (next_card s))"
  by (auto simp: valid_refs_def list_all_iff next_card_def emit_def split: list.splits)

lemma valid_refs_mark_reviewed: "valid_refs s \<Longrightarrow> valid_refs (snd (mark_reviewed s i c))"
proof (cases "node_index s i")
  case None
  assume "valid_refs s"
  with None show ?thesis by (simp add: mark_reviewed_def)
next
  case (Some node)
  assume v: "valid_refs s"
  with Some have n: "node < length (heap s)" by (simp add: valid_refs_index)
  with v have "valid_refs (rh_push s node)" by (rule valid_refs_push)
  moreover from this n have "valid_refs (queue_append (rh_push s node) node)"
    by (simp add: valid_refs_push)
  ultimately show ?thesis using Some
    by (simp add: mark_reviewed_def Let_def)
qed

lemma valid_refs_revisit_last: "valid_refs s \<Longrightarrow> valid_refs (snd (revisit_last s))"
  by (auto simp: valid_refs_def list_all_iff revisit_last_def rh_pop_def emit_def dest: in_set_butlastD)

section \<open>Adding and deleting, seen by category\<close>

lemma add_card_eq:
  "add_card s q a cat =
     add_card_in_memory
       (emit (Store Create)
          (s\<lparr>collection := collection s @
               [(fresh_oid s,
                 \<lparr>doc_question = Some q, doc_answer = Some a, doc_category = Some cat\<rparr>)],
             last_oid := fresh_oid s\<rparr>))
       (fresh_oid s) q a cat"
  by (simp add: add_card_def insert_one_def Let_def)

lemma delete_first_last: "fst (delete_first i (ds @ [(i, d)])) = 1"
  by (induction ds) auto

lemma cm_get_remove_from_category:
  "cm_get_by_category (remove_from_category s c n) c = remove1 n (cm_get_by_category s c)"
  by (simp add: cm_get_by_category_def remove_from_category_def emit_def split: option.splits)

lemma delete_card_buckets:
  "node_index s i = Some n \<Longrightarrow>
   category_manager (snd (delete_card s i)) =
     category_manager (remove_from_category s (category (heap s ! n)) n)"
  by (simp add: delete_card_def prim_defs Let_def split: option.splits prod.splits)

lemma delete_card_fst:
  "fst (delete_card s i) = (ll_find s i \<noteq> None \<and> 0 < fst (delete_first i (collection s)))"
  by (simp add: delete_card_def prim_defs Let_def split: option.splits prod.splits)

text \<open>
  C9. In every state whose references are allocated and for every category, after
  \<^verbatim>\<open>add_card\<close> the new card is exactly once in \<^verbatim>\<open>get_by_category\<close> of its category; the
  card carries the id the store assigned, \<^verbatim>\<open>delete_card\<close> of that id succeeds, and
  afterwards \<^verbatim>\<open>get_by_category\<close> of the category no longer contains the card.
\<close>

theorem add_then_delete_by_category:
  assumes "valid_refs s"
  shows "count_list (get_by_category (snd (add_card s q a cat)) cat) (fst (add_card s q a cat)) = 1
    \<and> card_id (heap (snd (add_card s q a cat)) ! fst (add_card s q a cat))
        = Some (fresh_oid s)
    \<and> fst (delete_card (snd (add_card s q a cat)) (fresh_oid s)) = True
    \<and> fst (add_card s q a cat)
        \<notin> set (get_by_category
                 (snd (delete_card (snd (add_card s q a cat)) (fresh_oid s))) cat)"
proof -
  let ?n = "length (heap s)"
  let ?i = "fresh_oid s"
  let ?s1 = "snd (add_card s q a cat)"
  let ?old = "cm_get_by_category s (Some cat)"
  have n: "fst (add_card s q a cat) = ?n"
    by (simp add: add_card_eq add_card_in_memory_eq emit_def)
  have fresh: "?n \<notin> set ?old"
    using valid_refs_get_by_category [OF assms, of ?n "Some cat"] by auto
  have b1: "cm_get_by_category ?s1 (Some cat) = ?old @ [?n]"
    by (simp add: add_card_eq add_card_in_memory_eq emit_def cm_get_by_category_def)
  have h1: "heap ?s1 ! ?n = \<lparr>card_id = Some ?i, question = q, answer = a, category = Some cat\<rparr>"
    by (simp add: add_card_eq add_card_in_memory_eq emit_def)
  have i1: "node_index ?s1 ?i = Some ?n"
    by (simp add: add_card_eq add_card_in_memory_eq emit_def)
  have l1: "linked_list ?s1 = linked_list s @ [?n]"
    by (simp add: add_card_eq add_card_in_memory_eq emit_def)
  have c1: "collection ?s1 = collection s @
      [(?i, \<lparr>doc_question = Some q, doc_answer = Some a, doc_category = Some cat\<rparr>)]"
    by (simp add: add_card_eq add_card_in_memory_eq emit_def)
  have count: "count_list (get_by_category ?s1 cat) ?n = 1"
    using fresh by (simp add: get_by_category_def b1 count_list_0_iff)
  have found: "ll_find ?s1 ?i \<noteq> None"
    by (auto simp: ll_find_def l1 h1 find_None_iff)
  have deleted: "fst (delete_card ?s1 ?i) = True"
    using found by (simp add: delete_card_fst c1 delete_first_last)
  have "get_by_category (snd (delete_card ?s1 ?i)) cat =
      cm_get_by_category (remove_from_category ?s1 (Some cat) ?n) (Some cat)"
    by (simp add: get_by_category_def cm_get_by_category_def delete_card_buckets [OF i1] h1)
  also have "\<dots> = remove1 ?n (cm_get_by_category ?s1 (Some cat))"
    by (rule cm_get_remove_from_category)
  also have "\<dots> = remove1 ?n (?old @ [?n])"
    by (simp only: b1)
  finally have "get_by_category (snd (delete_card ?s1 ?i)) cat = remove1 ?n (?old @ [?n])" .
  with fresh have gone: "?n \<notin> set (get_by_category (snd (delete_card ?s1 ?i)) cat)"
    by (simp add: remove1_append)
  from count h1 deleted gone show ?thesis
    unfolding n by simp
qed

theorem add_then_delete_by_category_witness:
  "valid_refs one_card_db
   \<and> fst (add_card one_card_db ''Q2'' ''A2'' ''Math'') = 1
   \<and> fresh_oid one_card_db = 2
   \<and> get_by_category (snd (add_card one_card_db ''Q2'' ''A2'' ''Math'')) ''Math'' = [0, 1]
   \<and> count_list (get_by_category (snd (add_card one_card_db ''Q2'' ''A2'' ''Math'')) ''Math'') 1 = 1
   \<and> card_id (heap (snd (add_card one_card_db ''Q2'' ''A2'' ''Math'')) ! 1) = Some 2
   \<and> fst (delete_card (snd (add_card one_card_db ''Q2'' ''A2'' ''Math'')) 2) = True
   \<and> 1 \<notin> set (get_by_category
                 (snd (delete_card (snd (add_card one_card_db ''Q2'' ''A2'' ''Math'')) 2)) ''Math'')"
proof -
  have v: "valid_refs one_card_db"
    by (simp add: valid_refs_def one_card_db_eq)
  have n: "fst (add_card one_card_db ''Q2'' ''A2'' ''Math'') = 1"
    by (simp add: add_card_eq add_card_in_memory_eq emit_def one_card_db_eq)
  have f: "fresh_oid one_card_db = 2"
    by (simp add: one_card_db_eq fresh_oid_def)
  have g: "get_by_category (snd (add_card one_card_db ''Q2'' ''A2'' ''Math'')) ''Math'' = [0, 1]"
    by (simp add: add_card_eq add_card_in_memory_eq emit_def one_card_db_eq get_by_category_def
        cm_get_by_category_def)
  from add_then_delete_by_category [OF v, of "''Q2''" "''A2''" "''Math''"] show ?thesis
    unfolding n f using v n f g by simp
qed

section \<open>The result of an edit, for any id argument\<close>

lemma edit_card_call_ObjectId:
  "edit_card_call s (ObjectId i) q a cat = Inr (edit_card s i q a cat)"
  by (simp add: edit_card_call_def ensure_oid_def)

lemma delete_card_call_ObjectId: "delete_card_call s (ObjectId i) = Inr (delete_card s i)"
  by (simp add: delete_card_call_def ensure_oid_def)

lemma mark_reviewed_call_ObjectId:
  "mark_reviewed_call s (ObjectId i) correct = Inr (mark_reviewed s i correct)"
  by (simp add: mark_reviewed_call_def ensure_oid_def)

lemma call_resolved:
  "ensure_oid card_id_arg = Inr i \<Longrightarrow>
   edit_card_call s card_id_arg q a cat = Inr (edit_card s i q a cat)
   \<and> delete_card_call s card_id_arg = Inr (delete_card s i)
   \<and> mark_reviewed_call s card_id_arg correct = Inr (mark_reviewed s i correct)"
  by (simp add: edit_card_call_def delete_card_call_def mark_reviewed_call_def)

lemma call_rejected:
  "ensure_oid card_id_arg = Inl e \<Longrightarrow>
   edit_card_call s card_id_arg q a cat = Inl e
   \<and> delete_card_call s card_id_arg = Inl e
   \<and> mark_reviewed_call s card_id_arg correct = Inl e"
  by (simp add: edit_card_call_def delete_card_call_def mark_reviewed_call_def)

lemma object_id_of_string_examples:
  "object_id_of_string ''0000000000000000000000Ff'' = Some 255"
  "object_id_of_string ''abc'' = None"
  "object_id_of_string ''00000000000000000000000g'' = None"
  "object_id_of_string ''0000000000000000000000 1'' = None"
  "object_id_of_string ''00000000000000000000  01'' = Some (256 ^ 12 + 1)"
  by (simp_all add: object_id_of_string_def hex_digit_def is_space_def id_of_bytes_def)

lemma object_id_of_string_one: "object_id_of_string ''000000000000000000000001'' = Some 1"
  by (simp add: object_id_of_string_def hex_digit_def is_space_def id_of_bytes_def)

text \<open>
  C7, as stated, fails for an id that is a string \<^verbatim>\<open>ObjectId()\<close> rejects, such as
  \<^verbatim>\<open>"abc"\<close>: \<^verbatim>\<open>_ensure_oid\<close> raises \<^verbatim>\<open>InvalidId\<close> in the first statement of \<^verbatim>\<open>edit_card\<close>,
  so the call returns neither \<open>True\<close> nor \<open>False\<close>.
\<close>

theorem edit_card_call_malformed_id_raises:
  "ensure_oid (Str ''abc'') = Inl InvalidId
   \<and> edit_card_call one_card_db (Str ''abc'') ''Q2'' ''A2'' None = Inl InvalidId"
  by (simp add: edit_card_call_def ensure_oid_def object_id_of_string_def)

text \<open>
  C7, as amended. For an id argument that \<^verbatim>\<open>_ensure_oid\<close> resolves (an \<^verbatim>\<open>ObjectId\<close>, or a
  string that \<^verbatim>\<open>ObjectId()\<close> accepts, such as 24 hexadecimal digits), \<^verbatim>\<open>edit_card\<close>
  returns \<open>True\<close> exactly when the ordered list's update succeeded and the store reported
  a modified document, and \<open>False\<close> otherwise. Nothing is rolled back: the collection is
  the one the store update left, whatever the list answered, and the entry the list found
  has the new question and answer, whatever the store answered. For a string that
  \<^verbatim>\<open>ObjectId()\<close> rejects, which every string of a length other than 24 is, the call ends
  with \<^verbatim>\<open>InvalidId\<close> before anything is read or written.
\<close>

theorem edit_card_call_result:
  "(ensure_oid card_id_arg = Inr i \<longrightarrow>
      edit_card_call s card_id_arg q a cat = Inr (edit_card s i q a cat)
      \<and> fst (edit_card s i q a cat) =
          (fst (ll_edit_card s i q a)
           \<and> 0 < fst (update_one (snd (ll_edit_card s i q a)) i
                      \<lparr>set_question = q, set_answer = a,
                       set_category = (if truthy cat then cat else None)\<rparr>))
      \<and> collection (snd (edit_card s i q a cat)) =
          snd (update_first i \<lparr>set_question = q, set_answer = a,
                               set_category = (if truthy cat then cat else None)\<rparr> (collection s))
      \<and> (ll_find s i = Some node \<and> node < length (heap s) \<longrightarrow>
           question (heap (snd (edit_card s i q a cat)) ! node) = q
           \<and> answer (heap (snd (edit_card s i q a cat)) ! node) = a))
   \<and> (ensure_oid card_id_arg = Inl e \<longrightarrow> edit_card_call s card_id_arg q a cat = Inl e)
   \<and> ensure_oid (ObjectId j) = Inr j
   \<and> ensure_oid (Str t) =
       (if length t = 24 \<and> fromhex t \<noteq> None then Inr (id_of_bytes (the (fromhex t)))
        else Inl InvalidId)"
proof -
  have 1: "ensure_oid card_id_arg = Inr i \<longrightarrow>
      edit_card_call s card_id_arg q a cat = Inr (edit_card s i q a cat)"
    by (simp add: edit_card_call_def)
  have 2: "ensure_oid card_id_arg = Inl e \<longrightarrow> edit_card_call s card_id_arg q a cat = Inl e"
    by (simp add: edit_card_call_def)
  have 3: "ensure_oid (ObjectId j) = Inr j"
    by (simp add: ensure_oid_def)
  have 4: "ensure_oid (Str t) =
       (if length t = 24 \<and> fromhex t \<noteq> None then Inr (id_of_bytes (the (fromhex t)))
        else Inl InvalidId)"
    by (auto simp: ensure_oid_def object_id_of_string_def split: option.splits)
  from 1 2 3 4 edit_card_result [of s i q a cat node] show ?thesis by blast
qed

theorem edit_card_call_result_witness:
  "ensure_oid (Str ''000000000000000000000001'') = Inr 1
   \<and> ll_find stale_db 1 = Some 0 \<and> 0 < length (heap stale_db)
   \<and> fst (ll_edit_card stale_db 1 ''Q2'' ''A2'') = True
   \<and> fst (update_one (snd (ll_edit_card stale_db 1 ''Q2'' ''A2'')) 1
            \<lparr>set_question = ''Q2'', set_answer = ''A2'', set_category = None\<rparr>) = 0
   \<and> edit_card_call stale_db (Str ''000000000000000000000001'') ''Q2'' ''A2'' None
       = Inr (edit_card stale_db 1 ''Q2'' ''A2'' None)
   \<and> fst (edit_card stale_db 1 ''Q2'' ''A2'' None) = False
   \<and> collection (snd (edit_card stale_db 1 ''Q2'' ''A2'' None)) = []
   \<and> question (heap stale_db ! 0) = ''Q''
   \<and> question (heap (snd (edit_card stale_db 1 ''Q2'' ''A2'' None)) ! 0) = ''Q2''
   \<and> answer (heap (snd (edit_card stale_db 1 ''Q2'' ''A2'' None)) ! 0) = ''A2''
   \<and> ensure_oid (Str ''abc'') = Inl InvalidId
   \<and> edit_card_call stale_db (Str ''abc'') ''Q2'' ''A2'' None = Inl InvalidId"
proof -
  have e1: "ensure_oid (Str ''000000000000000000000001'') = Inr 1"
    by (simp add: ensure_oid_def object_id_of_string_one)
  have e2: "ensure_oid (Str ''abc'') = Inl InvalidId"
    by (simp add: ensure_oid_def object_id_of_string_def)
  note t = edit_card_call_result [of "Str ''000000000000000000000001''" 1 stale_db "''Q2''" "''A2''" None 0]
  note u = edit_card_call_result [of "Str ''abc''" 1 stale_db "''Q2''" "''A2''" None 0 InvalidId]
  have f: "ll_find stale_db 1 = Some 0" by (rule stale_find)
  have l: "0 < length (heap stale_db)" and q: "question (heap stale_db ! 0) = ''Q''"
    and c: "collection stale_db = []"
    by (simp_all add: stale_db_eq)
  have ok: "fst (ll_edit_card stale_db 1 ''Q2'' ''A2'') = True"
    using f by (simp add: ll_edit_card_def)
  have db: "fst (update_one (snd (ll_edit_card stale_db 1 ''Q2'' ''A2'')) 1
            \<lparr>set_question = ''Q2'', set_answer = ''A2'', set_category = None\<rparr>) = 0"
    by (simp add: update_one_def ll_edit_card_collection c)
  from t e1 have call: "edit_card_call stale_db (Str ''000000000000000000000001'') ''Q2'' ''A2'' None
       = Inr (edit_card stale_db 1 ''Q2'' ''A2'' None)"
    by blast
  from t e1 db have r: "fst (edit_card stale_db 1 ''Q2'' ''A2'' None) = False"
    by (simp add: truthy_def)
  from t e1 c have s: "collection (snd (edit_card stale_db 1 ''Q2'' ''A2'' None)) = []"
    by (simp add: truthy_def)
  from t e1 f l have m: "question (heap (snd (edit_card stale_db 1 ''Q2'' ''A2'' None)) ! 0) = ''Q2''
    \<and> answer (heap (snd (edit_card stale_db 1 ''Q2'' ''A2'' None)) ! 0) = ''A2''"
    by blast
  from u e2 have raise: "edit_card_call stale_db (Str ''abc'') ''Q2'' ''A2'' None = Inl InvalidId"
    by blast
  from e1 e2 f l ok db call r s q m raise show ?thesis by blast
qed

section \<open>Generated ids are not reused\<close>

text \<open>
  A new id is larger than every id generated before and than every id in the collection;
  in particular the id given to a card is not given again after the card is deleted.
\<close>

lemma fresh_oid_above: "last_oid s < fresh_oid s"
  by (simp add: fresh_oid_def)

lemma fresh_oid_not_stored: "i \<in> fst ` set (collection s) \<Longrightarrow> i < fresh_oid s"
proof -
  have "i \<in> set xs \<Longrightarrow> i \<le> foldr max xs (0::nat)" for xs
    by (induction xs) auto
  from this [of "map fst (collection s)"] show "i \<in> fst ` set (collection s) \<Longrightarrow> i < fresh_oid s"
    by (simp add: fresh_oid_def)
qed

lemma last_oid_add_card: "last_oid (snd (add_card s q a cat)) = fresh_oid s"
  by (simp add: add_card_eq add_card_in_memory_eq emit_def)

lemma last_oid_edit_card: "last_oid (snd (edit_card s i q a cat)) = last_oid s"
  by (simp add: edit_card_def prim_defs Let_def split: prod.splits option.splits)

lemma last_oid_delete_card: "last_oid (snd (delete_card s i)) = last_oid s"
  by (simp add: delete_card_def prim_defs Let_def split: prod.splits option.splits)

lemma last_oid_mark_reviewed: "last_oid (snd (mark_reviewed s i c)) = last_oid s"
  by (simp add: mark_reviewed_def prim_defs Let_def split: option.splits)

lemma fresh_oid_after_delete:
  "fresh_oid s < fresh_oid (snd (delete_card (snd (add_card s q a cat)) i))"
  using fresh_oid_above [of "snd (delete_card (snd (add_card s q a cat)) i)"]
  by (simp add: last_oid_delete_card last_oid_add_card)

end
